theory Spec2Isabelle
  imports Main
begin

section \<open>JavaScript strings\<close>

text \<open>
  A JavaScript string is a sequence of UTF-16 code units, so it is modelled as a list of
  natural numbers; \<open>js\<close> turns an ASCII literal of the source into that form.
\<close>

type_synonym jsstring = "nat list"

definition js :: "string \<Rightarrow> jsstring" where
  "js s = map of_char s"

text \<open>
  \<open>String.prototype.trim\<close> strips the ECMAScript WhiteSpace and LineTerminator code
  points from both ends: TAB, LF, VT, FF, CR, SP, NBSP, U+1680, U+2000..U+200A, U+2028,
  U+2029, U+202F, U+205F, U+3000 and U+FEFF. All of them are single code units.
\<close>

definition is_ws :: "nat \<Rightarrow> bool" where
  "is_ws c = (c \<in> {9, 10, 11, 12, 13, 32, 160, 5760, 8232, 8233, 8239, 8287, 12288, 65279}
              \<or> (8192 \<le> c \<and> c \<le> 8202))"

definition trim :: "jsstring \<Rightarrow> jsstring" where
  "trim s = rev (dropWhile is_ws (rev (dropWhile is_ws s)))"

text \<open>\<open>s.substr(start, len)\<close> for non-negative arguments.\<close>

definition substr :: "jsstring \<Rightarrow> nat \<Rightarrow> nat \<Rightarrow> jsstring" where
  "substr s start len = take len (drop start s)"

definition startsWith :: "jsstring \<Rightarrow> jsstring \<Rightarrow> bool" where
  "startsWith s p = (take (length p) s = p)"

text \<open>
  A template literal prints an integer in decimal; \<open>Date.now()\<close> is an integer.
\<close>

function dec :: "nat \<Rightarrow> jsstring" where
  "dec n = (if n < 10 then [48 + n] else dec (n div 10) @ [48 + n mod 10])"
  by pat_completeness auto
termination
  by (relation "measure (\<lambda>n. n)") auto

declare dec.simps [simp del]

definition num_str :: "int \<Rightarrow> jsstring" where
  "num_str i = (if i < 0 then 45 # dec (nat (- i)) else dec (nat i))"


section \<open>Persisted records\<close>

text \<open>
  The object literal \<open>userSession\<close> of \<open>handleLogin\<close> (LoginPage). The fields \<open>id\<close>,
  \<open>phone\<close> and \<open>isAuthenticated\<close> carry the suffix \<open>_us\<close>, since the same names are
  fields of other records and state variables of the components.
\<close>

record userSession =
  id_us :: jsstring
  phone_us :: jsstring
  isAuthenticated_us :: bool
  loginTime :: jsstring
  lastActive :: int

text \<open>The default profile object of \<open>handleLogin\<close>.\<close>

record userProfile =
  id_up :: jsstring
  name_up :: jsstring
  age :: int
  avatar :: jsstring
  isVip :: bool
  following :: int
  fans :: int
  wallet :: int

text \<open>\<open>interface Message\<close> and \<open>interface Conversation\<close> of MessagesPage.tsx.\<close>

record message =
  id_msg :: jsstring
  conversationId :: jsstring
  senderId :: jsstring
  text_msg :: jsstring
  timestamp :: int
  read :: bool

text \<open>
  \<open>userImage\<close> is \<open>user.images[0]\<close>, which is \<open>undefined\<close> for an empty array:
  \<open>None\<close> stands for \<open>undefined\<close>.
\<close>

record conversation =
  id_conv :: jsstring
  userId :: jsstring
  userName :: jsstring
  userImage :: "jsstring option"
  lastMessage :: jsstring
  lastMessageTime :: int
  unreadCount :: int
  messages :: "message list"


section \<open>StorageManager\<close>

text \<open>
  The values the application hands to \<open>storage.set\<close>. Each of them is a JavaScript
  object or array, hence truthy: a value read back is falsy exactly when the read
  returned \<open>null\<close>.
\<close>

datatype stored =
    SessionV userSession
  | ProfileV userProfile
  | ConversationsV "conversation list"

text \<open>
  An item of the browser's \<open>localStorage\<close>: a plain string written by
  \<open>localStorage.setItem\<close> directly (the mock token), or a value written through the
  StorageManager, which wraps the data (\<open>{"data": ..., ...}\<close>) together with the optional
  time-to-live given to \<open>set\<close>.
\<close>

datatype item =
    Plain jsstring
  | Wrapped stored "int option"

record storage =
  localStorage :: "jsstring \<rightharpoonup> item"
  cache :: "jsstring \<rightharpoonup> stored"

definition PREFIX :: jsstring where
  "PREFIX = js ''loveinthecity_''"

text \<open>
  Modelled from the spec: the class \<open>StorageManager\<close> of \<open>utils/localStorage\<close> is not
  among the sources. The spec describes it as a thin wrapper over browser local storage
  with an in-memory cache and key prefixing; LOGOUT\_CODE\_LOGIC.md states for
  \<open>remove(key)\<close> that it calls \<open>localStorage.removeItem('loveinthecity\_' + key)\<close> and
  \<open>this.cache.delete(key)\<close>, for \<open>clearUserProfile()\<close> that it calls
  \<open>remove('userProfile')\<close>, and for \<open>clear()\<close> that it iterates all localStorage keys,
  removes the ones starting with \<open>'loveinthecity\_'\<close> and clears the internal cache.
  \<open>set\<close> writes the wrapped value under the prefixed key and mirrors it in the cache;
  \<open>get\<close> answers from the cache and falls back to the prefixed key of localStorage.
  Watchers, console output and the expiry of a time-to-live (which needs the wall clock
  at the time of the read) are not modelled.
\<close>

definition storage_set :: "jsstring \<Rightarrow> stored \<Rightarrow> int option \<Rightarrow> storage \<Rightarrow> storage" where
  "storage_set key v ttl st =
     st\<lparr>localStorage := (localStorage st)(PREFIX @ key \<mapsto> Wrapped v ttl),
        cache := (cache st)(key \<mapsto> v)\<rparr>"

text \<open>
  Modelled from the spec: \<open>StorageManager.get\<close> (not among the sources), the read
  through the in-memory cache with the prefixed key of localStorage behind it; \<open>None\<close>
  is \<open>null\<close>.
\<close>

definition storage_get :: "jsstring \<Rightarrow> storage \<Rightarrow> stored option" where
  "storage_get key st =
     (case cache st key of
        Some v \<Rightarrow> Some v
      | None \<Rightarrow>
          (case localStorage st (PREFIX @ key) of
             Some (Wrapped v ttl) \<Rightarrow> Some v
           | _ \<Rightarrow> None))"

text \<open>
  Modelled from the spec: \<open>StorageManager.remove\<close> (not among the sources), as the
  comment at its call in \<open>handleLogout\<close> lists its steps.
\<close>

definition storage_remove :: "jsstring \<Rightarrow> storage \<Rightarrow> storage" where
  "storage_remove key st =
     st\<lparr>localStorage := (localStorage st)(PREFIX @ key := None),
        cache := (cache st)(key := None)\<rparr>"

text \<open>
  Modelled from the spec: \<open>StorageManager.clearUserProfile\<close> (not among the sources),
  which the same document gives as \<open>storage.remove('userProfile')\<close>.
\<close>

definition storage_clearUserProfile :: "storage \<Rightarrow> storage" where
  "storage_clearUserProfile st = storage_remove (js ''userProfile'') st"

text \<open>
  Modelled from the spec: \<open>StorageManager.clear\<close> (not among the sources), the removal
  of all keys under the namespace prefix, and of the whole cache.
\<close>

definition storage_clear :: "storage \<Rightarrow> storage" where
  "storage_clear st =
     st\<lparr>localStorage := (\<lambda>k. if startsWith k PREFIX then None else localStorage st k),
        cache := Map.empty\<rparr>"

text \<open>\<open>localStorage.removeItem(key)\<close> of the browser, on the unprefixed key.\<close>

definition localStorage_removeItem :: "jsstring \<Rightarrow> storage \<Rightarrow> storage" where
  "localStorage_removeItem key st = st\<lparr>localStorage := (localStorage st)(key := None)\<rparr>"


section \<open>LoginPage: handleLogin\<close>

datatype exn = Exception jsstring

text \<open>
  What \<open>handleLogin\<close> takes from its surroundings. The two storage calls and the
  \<open>onLogin\<close> callback sit inside the \<open>try\<close> block and may throw, so each returns either
  the exception (\<open>Inl\<close>) or its result. \<open>Math\_random\_toString36\<close> is the string
  \<open>Math.random().toString(36)\<close>, \<open>Date\_toISOString\<close> is \<open>new Date().toISOString()\<close>
  and \<open>Date\_now\<close> is \<open>Date.now()\<close>.
\<close>

record env =
  env_set :: "jsstring \<Rightarrow> stored \<Rightarrow> int option \<Rightarrow> storage \<Rightarrow> exn + storage"
  env_get :: "jsstring \<Rightarrow> storage \<Rightarrow> exn + stored option"
  onLogin :: "storage \<Rightarrow> exn + storage"
  Math_random_toString36 :: jsstring
  Date_toISOString :: jsstring
  Date_now :: int

text \<open>
  The state of the component (\<open>phone\<close>, \<open>password\<close>, \<open>error\<close>, \<open>loading\<close>), the
  storage it writes, and the number of times it has called \<open>onLogin\<close>.
\<close>

record login_page =
  phone :: jsstring
  password :: jsstring
  error :: jsstring
  loading :: bool
  store :: storage
  onLogin_calls :: nat

text \<open>
  The three messages. The first two start with an emoji outside the Basic Multilingual
  Plane (U+1F4F1, U+1F510), that is a surrogate pair; the third starts with U+274C.
\<close>

definition msg_phone :: jsstring where
  "msg_phone = [0xD83D, 0xDCF1] @ js '' Please enter your phone number''"

definition msg_password :: jsstring where
  "msg_password = [0xD83D, 0xDD10] @ js '' Please enter your password''"

definition msg_failed :: jsstring where
  "msg_failed = [0x274C] @ js '' Login failed. Please try again.''"

definition sessionTTL :: int where
  "sessionTTL = 24 * 60 * 60 * 1000"

definition new_session :: "env \<Rightarrow> login_page \<Rightarrow> userSession" where
  "new_session e w =
     \<lparr>id_us = js ''user_'' @ substr (Math_random_toString36 e) 2 9,
      phone_us = phone w,
      isAuthenticated_us = True,
      loginTime = Date_toISOString e,
      lastActive = Date_now e\<rparr>"

definition default_profile :: "userSession \<Rightarrow> login_page \<Rightarrow> userProfile" where
  "default_profile userSession w =
     \<lparr>id_up = id_us userSession,
      name_up = js ''User'',
      age = 25,
      avatar = js ''https://api.dicebear.com/7.x/avataaars/svg?seed='' @ phone w,
      isVip = False,
      following = 0,
      fans = 0,
      wallet = 0\<rparr>"

text \<open>
  The body of the \<open>try\<close> block. A thrown exception leaves with the state reached so far:
  what was written before the throw stays written.
\<close>

definition handleLogin_try :: "env \<Rightarrow> login_page \<Rightarrow> (exn \<times> login_page) + login_page" where
  "handleLogin_try e w =
     (if trim (phone w) = [] then Inr (w\<lparr>error := msg_phone, loading := False\<rparr>)
      else if trim (password w) = [] then Inr (w\<lparr>error := msg_password, loading := False\<rparr>)
      else
        let userSession = new_session e w in
        case env_set e (js ''userSession'') (SessionV userSession) (Some sessionTTL) (store w) of
          Inl x \<Rightarrow> Inl (x, w)
        | Inr st1 \<Rightarrow>
            (case env_get e (js ''userProfile'') st1 of
               Inl x \<Rightarrow> Inl (x, w\<lparr>store := st1\<rparr>)
             | Inr userProfile \<Rightarrow>
                 (case (if userProfile = None
                        then env_set e (js ''userProfile'')
                               (ProfileV (default_profile userSession w)) None st1
                        else Inr st1) of
                    Inl x \<Rightarrow> Inl (x, w\<lparr>store := st1\<rparr>)
                  | Inr st2 \<Rightarrow>
                      (let w2 = w\<lparr>loading := False, store := st2,
                                  onLogin_calls := Suc (onLogin_calls w)\<rparr> in
                       case onLogin e st2 of
                         Inl x \<Rightarrow> Inl (x, w2)
                       | Inr st3 \<Rightarrow> Inr (w2\<lparr>store := st3\<rparr>)))))"

text \<open>
  \<open>handleLogin\<close>: clear the error, raise the loading flag, run the \<open>try\<close> block, and in
  the \<open>catch\<close> clause set the failure message and lower the loading flag. The result is
  \<open>Inl\<close> when an exception leaves the handler.
\<close>

definition handleLogin :: "env \<Rightarrow> login_page \<Rightarrow> exn + login_page" where
  "handleLogin e w =
     (case handleLogin_try e (w\<lparr>error := [], loading := True\<rparr>) of
        Inr w' \<Rightarrow> Inr w'
      | Inl (x, w') \<Rightarrow> Inr (w'\<lparr>error := msg_failed, loading := False\<rparr>))"

text \<open>The environment whose storage calls are those of the StorageManager.\<close>

definition manager_env :: "(storage \<Rightarrow> exn + storage) \<Rightarrow> jsstring \<Rightarrow> jsstring \<Rightarrow> int \<Rightarrow> env" where
  "manager_env cb rnd isostr t =
     \<lparr>env_set = (\<lambda>key v ttl st. Inr (storage_set key v ttl st)),
      env_get = (\<lambda>key st. Inr (storage_get key st)),
      onLogin = cb,
      Math_random_toString36 = rnd,
      Date_toISOString = isostr,
      Date_now = t\<rparr>"


section \<open>App: the two effects and handleLogout\<close>

text \<open>
  The state of \<open>App\<close> and \<open>AppContent\<close> as LOGOUT\_CODE\_LOGIC.md gives it:
  \<open>isAuthenticated\<close> (initially false) and \<open>mounted\<close> (initially false). \<open>navigations\<close>
  lists the calls \<open>navigate(path, {replace})\<close> made so far, \<open>rendered\<close> holds the
  dependencies of Effect 2, \<open>(isAuthenticated, navigate, mounted)\<close>, as they were at the
  last committed render (\<open>None\<close> before the first), and \<open>storage_app\<close> is the storage of
  the browser. The function \<open>navigate\<close> that \<open>useNavigate()\<close> returns is known by a number:
  two renders got the same function exactly when they got the same number.
\<close>

record app =
  isAuthenticated :: bool
  mounted :: bool
  navigations :: "(jsstring \<times> bool) list"
  rendered :: "(bool \<times> nat \<times> bool) option"
  storage_app :: storage

text \<open>
  \<open>userSession && userSession.isAuthenticated\<close>: a value that is not a session record has
  no such property.
\<close>

definition session_valid :: "stored option \<Rightarrow> bool" where
  "session_valid userSession =
     (case userSession of Some (SessionV s) \<Rightarrow> isAuthenticated_us s | _ \<Rightarrow> False)"

text \<open>
  Effect 1, the initial authentication check. The read of the session is inside the
  \<open>try\<close> block, so it is a parameter that may throw; the \<open>catch\<close> clause still sets
  \<open>mounted\<close>.
\<close>

definition effect1 :: "(jsstring \<Rightarrow> storage \<Rightarrow> exn + stored option) \<Rightarrow> app \<Rightarrow> app" where
  "effect1 get a =
     (case get (js ''userSession'') (storage_app a) of
        Inl x \<Rightarrow> a\<lparr>mounted := True\<rparr>
      | Inr userSession \<Rightarrow>
          (if session_valid userSession then a\<lparr>isAuthenticated := True\<rparr> else a)
            \<lparr>mounted := True\<rparr>)"

text \<open>
  Effect 2, the redirect gate, on the values of \<open>mounted\<close> and \<open>isAuthenticated\<close> that
  the render captured.
\<close>

definition login_redirect :: "jsstring \<times> bool" where
  "login_redirect = (js ''/login'', True)"

definition effect2 :: "bool \<Rightarrow> bool \<Rightarrow> app \<Rightarrow> app" where
  "effect2 mnt auth a =
     (if mnt \<and> \<not> auth then a\<lparr>navigations := navigations a @ [login_redirect]\<rparr> else a)"

text \<open>
  One committed render. React runs an effect after the first render and after every
  render in which one of its dependencies differs from the previous render; what an
  effect sets shows in the next render. Effect 1 depends on \<open>setIsAuthenticated\<close> only,
  which never changes, so it runs after the first render. Effect 2 depends on
  \<open>isAuthenticated\<close>, \<open>navigate\<close> and \<open>mounted\<close>. The router decides which function
  \<open>useNavigate()\<close> returns in a render (it may return a new one after the location has
  changed), so the number of that function is an argument of the render.
\<close>

definition commit :: "(jsstring \<Rightarrow> storage \<Rightarrow> exn + stored option) \<Rightarrow> nat \<Rightarrow> app \<Rightarrow> app" where
  "commit get nav a =
     (let auth = isAuthenticated a; mnt = mounted a in
      case rendered a of
        None \<Rightarrow> (effect2 mnt auth (effect1 get a))\<lparr>rendered := Some (auth, nav, mnt)\<rparr>
      | Some deps \<Rightarrow>
          if deps = (auth, nav, mnt) then a
          else (effect2 mnt auth a)\<lparr>rendered := Some (auth, nav, mnt)\<rparr>)"

text \<open>
  A sequence of committed renders, one entry per render: the number of the \<open>navigate\<close>
  function of that render. React renders the component again after every change of its
  state and whenever the router's location changes, so mounting takes at least two
  renders (the second one shows what Effect 1 set) and a change of the flag at least one.
\<close>

fun renders :: "(jsstring \<Rightarrow> storage \<Rightarrow> exn + stored option) \<Rightarrow> nat list \<Rightarrow> app \<Rightarrow> app" where
  "renders get [] a = a"
| "renders get (nav # navs) a = renders get navs (commit get nav a)"

definition initial_app :: "storage \<Rightarrow> app" where
  "initial_app st =
     \<lparr>isAuthenticated = False, mounted = False, navigations = [], rendered = None,
      storage_app = st\<rparr>"

text \<open>
  Loading the page starts from the initial state over the items of localStorage; the
  in-memory cache of the previous page is gone.
\<close>

definition page_load :: "(jsstring \<rightharpoonup> item) \<Rightarrow> app" where
  "page_load items = initial_app \<lparr>localStorage = items, cache = Map.empty\<rparr>"

definition manager_get :: "jsstring \<Rightarrow> storage \<Rightarrow> exn + stored option" where
  "manager_get key st = Inr (storage_get key st)"

definition handleLogout :: "app \<Rightarrow> app" where
  "handleLogout a =
     (let st1 = localStorage_removeItem (js ''funloves_token'') (storage_app a);
          st2 = storage_remove (js ''userSession'') st1;
          st3 = storage_clearUserProfile st2;
          st4 = storage_clear st3
      in a\<lparr>storage_app := st4, isAuthenticated := False\<rparr>)"


section \<open>MessagesPage\<close>

text \<open>
  An element of \<open>MOCK_USERS\<close> (the constant is not among the sources and is a parameter):
  the properties the page reads.
\<close>

record mock_user =
  id_user :: jsstring
  name_user :: jsstring
  images :: "jsstring list"

text \<open>
  The state of the page, its storage, and the number of calls of \<open>Date.now()\<close> made so
  far. The clock is a function from that number to the reading, so that two calls may
  return different times.
\<close>

record messages_page =
  conversations :: "conversation list"
  selectedConversation :: "conversation option"
  messageInput :: jsstring
  storage_mp :: storage
  ticks :: nat

text \<open>
  The callback of \<open>map\<close> in \<open>loadConversations\<close>. It reads the clock four times: for
  \<open>lastMessageTime\<close> and for the three timestamps, in this order.
\<close>

definition default_conversation :: "(nat \<Rightarrow> int) \<Rightarrow> nat \<Rightarrow> nat \<Rightarrow> mock_user \<Rightarrow> conversation" where
  "default_conversation clock n index user =
     \<lparr>id_conv = js ''conv_'' @ id_user user,
      userId = id_user user,
      userName = name_user user,
      userImage = (case images user of [] \<Rightarrow> None | x # _ \<Rightarrow> Some x),
      lastMessage = js ''Hi! How are you?'',
      lastMessageTime = clock (n + 4 * index) - int index * 60000,
      unreadCount = (if index mod 2 = 0 then int index else 0),
      messages =
        [\<lparr>id_msg = js ''msg_1'',
          conversationId = js ''conv_'' @ id_user user,
          senderId = id_user user,
          text_msg = js ''Hi! How are you?'',
          timestamp = clock (n + 4 * index + 1) - 300000,
          read = True\<rparr>,
         \<lparr>id_msg = js ''msg_2'',
          conversationId = js ''conv_'' @ id_user user,
          senderId = js ''me'',
          text_msg = js ''I'' @ [39] @ js ''m doing great! How about you?'',
          timestamp = clock (n + 4 * index + 2) - 240000,
          read = True\<rparr>,
         \<lparr>id_msg = js ''msg_3'',
          conversationId = js ''conv_'' @ id_user user,
          senderId = id_user user,
          text_msg = js ''Great! Would you like to meet up?'',
          timestamp = clock (n + 4 * index + 3) - 60000,
          read = False\<rparr>]\<rparr>"

definition defaultConversations :: "(nat \<Rightarrow> int) \<Rightarrow> nat \<Rightarrow> mock_user list \<Rightarrow> conversation list" where
  "defaultConversations clock n MOCK_USERS =
     map (\<lambda>(index, user). default_conversation clock n index user)
       (enumerate 0 (take 5 (filter (\<lambda>u. id_user u \<noteq> js ''support'') MOCK_USERS)))"

text \<open>
  \<open>loadConversations\<close>. A saved value that is not a non-empty array of conversations
  fails the test \<open>savedConversations && savedConversations.length > 0\<close>. The first element
  of an empty array is \<open>undefined\<close>, which is \<open>None\<close> here.
\<close>

definition loadConversations :: "(nat \<Rightarrow> int) \<Rightarrow> mock_user list \<Rightarrow> messages_page \<Rightarrow> messages_page" where
  "loadConversations clock MOCK_USERS p =
     (case storage_get (js ''conversations'') (storage_mp p) of
        Some (ConversationsV (c # cs)) \<Rightarrow>
          p\<lparr>conversations := c # cs, selectedConversation := Some c\<rparr>
      | _ \<Rightarrow>
          (let d = defaultConversations clock (ticks p) MOCK_USERS in
           p\<lparr>conversations := d,
             selectedConversation := (case d of [] \<Rightarrow> None | c # _ \<Rightarrow> Some c),
             storage_mp := storage_set (js ''conversations'') (ConversationsV d) None (storage_mp p),
             ticks := ticks p + 4 * length d\<rparr>))"

text \<open>The component as mounted: the initial values of \<open>useState\<close>, then the effect.\<close>

definition mount_page :: "(nat \<Rightarrow> int) \<Rightarrow> mock_user list \<Rightarrow> storage \<Rightarrow> nat \<Rightarrow> messages_page" where
  "mount_page clock MOCK_USERS st n =
     loadConversations clock MOCK_USERS
       \<lparr>conversations = [], selectedConversation = None, messageInput = [],
        storage_mp = st, ticks = n\<rparr>"

text \<open>
  The callback of \<open>map\<close> in \<open>handleSendMessage\<close>, run over the list: a conversation with
  the identifier of the selected one gets the new message, the input as \<open>lastMessage\<close> and
  a fresh reading of the clock; the result carries the number of readings made.
\<close>

fun send_map :: "(nat \<Rightarrow> int) \<Rightarrow> jsstring \<Rightarrow> message \<Rightarrow> jsstring \<Rightarrow> nat \<Rightarrow> conversation list
                 \<Rightarrow> conversation list \<times> nat" where
  "send_map clock selId newMessage input n [] = ([], n)"
| "send_map clock selId newMessage input n (conv # rest) =
     (if id_conv conv = selId
      then (let (rest', n') = send_map clock selId newMessage input (Suc n) rest in
            (conv\<lparr>messages := messages conv @ [newMessage],
                  lastMessage := input,
                  lastMessageTime := clock n\<rparr> # rest', n'))
      else (let (rest', n') = send_map clock selId newMessage input n rest in
            (conv # rest', n')))"

definition handleSendMessage :: "(nat \<Rightarrow> int) \<Rightarrow> messages_page \<Rightarrow> messages_page" where
  "handleSendMessage clock p =
     (if trim (messageInput p) = [] then p
      else case selectedConversation p of
        None \<Rightarrow> p
      | Some sel \<Rightarrow>
          (let n = ticks p;
               newMessage =
                 \<lparr>id_msg = js ''msg_'' @ num_str (clock n),
                  conversationId = id_conv sel,
                  senderId = js ''me'',
                  text_msg = messageInput p,
                  timestamp = clock (n + 1),
                  read = True\<rparr>;
               (updatedConversations, n') =
                 send_map clock (id_conv sel) newMessage (messageInput p) (n + 2) (conversations p)
           in p\<lparr>conversations := updatedConversations,
                storage_mp := storage_set (js ''conversations'')
                                (ConversationsV updatedConversations) None (storage_mp p),
                selectedConversation :=
                  Some (sel\<lparr>messages := messages sel @ [newMessage],
                            lastMessage := messageInput p,
                            lastMessageTime := clock n'\<rparr>),
                messageInput := [],
                ticks := Suc n'\<rparr>))"

text \<open>
  The parameter \<open>conversationId\<close> is \<open>cid\<close> here (the name is a field of a message).
  \<open>selectedConversation?.id === conversationId\<close> is false when nothing is selected;
  \<open>filtered[0] || null\<close> is \<open>null\<close> for the empty list.
\<close>

definition handleDeleteConversation :: "jsstring \<Rightarrow> messages_page \<Rightarrow> messages_page" where
  "handleDeleteConversation cid p =
     (let filtered = filter (\<lambda>c. id_conv c \<noteq> cid) (conversations p);
          p' = p\<lparr>conversations := filtered,
                 storage_mp := storage_set (js ''conversations'')
                                 (ConversationsV filtered) None (storage_mp p)\<rparr>
      in if map_option id_conv (selectedConversation p) = Some cid
         then p'\<lparr>selectedConversation := (case filtered of [] \<Rightarrow> None | c # _ \<Rightarrow> Some c)\<rparr>
         else p')"

text \<open>
  What the user can do on the page: send, delete a conversation, click the conversation
  at a position of the list (\<open>setSelectedConversation(conv)\<close>; with an empty search term
  every conversation is listed), type into the input, have the component mounted again,
  and reload the page, which also loses the in-memory cache.
\<close>

datatype action =
    Send
  | Delete jsstring
  | Select nat
  | Type jsstring
  | Remount
  | Reload

fun step :: "(nat \<Rightarrow> int) \<Rightarrow> mock_user list \<Rightarrow> messages_page \<Rightarrow> action \<Rightarrow> messages_page" where
  "step clock MOCK_USERS p Send = handleSendMessage clock p"
| "step clock MOCK_USERS p (Delete cid) = handleDeleteConversation cid p"
| "step clock MOCK_USERS p (Select i) =
     (if i < length (conversations p)
      then p\<lparr>selectedConversation := Some (conversations p ! i)\<rparr> else p)"
| "step clock MOCK_USERS p (Type v) = p\<lparr>messageInput := v\<rparr>"
| "step clock MOCK_USERS p Remount = mount_page clock MOCK_USERS (storage_mp p) (ticks p)"
| "step clock MOCK_USERS p Reload =
     mount_page clock MOCK_USERS ((storage_mp p)\<lparr>cache := Map.empty\<rparr>) (ticks p)"

definition run :: "(nat \<Rightarrow> int) \<Rightarrow> mock_user list \<Rightarrow> messages_page \<Rightarrow> action list \<Rightarrow> messages_page" where
  "run clock MOCK_USERS p acts = foldl (step clock MOCK_USERS) p acts"

text \<open>Every message carries the identifier of the conversation that holds it.\<close>

definition conv_inv :: "conversation list \<Rightarrow> bool" where
  "conv_inv cs = (\<forall>c \<in> set cs. \<forall>m \<in> set (messages c). conversationId m = id_conv c)"

text \<open>
  The storage makes \<open>loadConversations\<close> seed the defaults: it holds no non-empty list
  of conversations.
\<close>

definition no_saved :: "storage \<Rightarrow> bool" where
  "no_saved st =
     (case storage_get (js ''conversations'') st of
        Some (ConversationsV (c # cs)) \<Rightarrow> False
      | _ \<Rightarrow> True)"


text \<open>
  What the proof of the invariant carries along: the list on the page satisfies it, and so
  does every list of conversations that the cache or localStorage holds under the key of
  the conversations.
\<close>

definition page_ok :: "messages_page \<Rightarrow> bool" where
  "page_ok p =
     (conv_inv (conversations p)
      \<and> (\<forall>cs. cache (storage_mp p) (js ''conversations'') = Some (ConversationsV cs) \<longrightarrow> conv_inv cs)
      \<and> (\<forall>cs ttl. localStorage (storage_mp p) (PREFIX @ js ''conversations'')
                     = Some (Wrapped (ConversationsV cs) ttl) \<longrightarrow> conv_inv cs))"


section \<open>Example states\<close>

text \<open>
  A browser storage after a login: the mock token, a session, a profile, and an item of
  another application under an unprefixed key.
\<close>

definition example_session :: userSession where
  "example_session =
     \<lparr>id_us = js ''user_4fzyo82mv'', phone_us = js ''13800138000'', isAuthenticated_us = True,
      loginTime = js ''2026-01-01T00:00:00.000Z'', lastActive = 1767225600000\<rparr>"

definition example_profile :: userProfile where
  "example_profile =
     \<lparr>id_up = js ''user_older'', name_up = js ''Ann'', age = 31, avatar = js ''a.png'',
      isVip = True, following = 3, fans = 7, wallet = 120\<rparr>"

definition example_items :: "jsstring \<rightharpoonup> item" where
  "example_items =
     [js ''funloves_token'' \<mapsto> Plain (js ''mock_jwt_token''),
      PREFIX @ js ''userSession'' \<mapsto> Wrapped (SessionV example_session) (Some 86400000),
      PREFIX @ js ''userProfile'' \<mapsto> Wrapped (ProfileV example_profile) None,
      js ''theme'' \<mapsto> Plain (js ''dark'')]"

definition example_storage :: storage where
  "example_storage =
     \<lparr>localStorage = example_items,
      cache = [js ''userSession'' \<mapsto> SessionV example_session]\<rparr>"

definition empty_storage :: storage where
  "empty_storage = \<lparr>localStorage = Map.empty, cache = Map.empty\<rparr>"

definition example_app :: app where
  "example_app =
     \<lparr>isAuthenticated = True, mounted = True, navigations = [],
      rendered = Some (True, 0, True), storage_app = example_storage\<rparr>"

text \<open>
  A filled login form, one with a blank phone number, an environment that works, one
  whose storage writes throw and one whose callback throws.
\<close>

definition example_login :: login_page where
  "example_login =
     \<lparr>phone = js ''13800138000'', password = js ''secret'', error = [], loading = False,
      store = empty_storage, onLogin_calls = 0\<rparr>"

definition blank_login :: login_page where
  "blank_login = example_login\<lparr>phone := js ''   ''\<rparr>"

definition example_env :: env where
  "example_env =
     manager_env Inr (js ''0.4fzyo82mvyr'') (js ''2026-01-01T00:00:00.000Z'') 1767225600000"

definition failing_env :: env where
  "failing_env =
     example_env\<lparr>env_set := (\<lambda>key v ttl st. Inl (Exception (js ''QuotaExceededError'')))\<rparr>"

definition throwing_callback_env :: env where
  "throwing_callback_env =
     manager_env (\<lambda>st. Inl (Exception (js ''TypeError'')))
       (js ''0.4fzyo82mvyr'') (js ''2026-01-01T00:00:00.000Z'') 1767225600000"

text \<open>
  A clock that advances by one millisecond per reading, three mock users, and a page with
  two conversations, the first one selected and a message typed.
\<close>

definition example_clock :: "nat \<Rightarrow> int" where
  "example_clock n = 1767225600000 + int n"

definition example_users :: "mock_user list" where
  "example_users =
     [\<lparr>id_user = js ''u1'', name_user = js ''Mia'', images = [js ''mia.jpg'']\<rparr>,
      \<lparr>id_user = js ''support'', name_user = js ''Support'', images = []\<rparr>,
      \<lparr>id_user = js ''u2'', name_user = js ''Zoe'', images = []\<rparr>]"

definition example_conv1 :: conversation where
  "example_conv1 =
     \<lparr>id_conv = js ''conv_u1'', userId = js ''u1'', userName = js ''Mia'',
      userImage = Some (js ''mia.jpg''), lastMessage = js ''Hi!'', lastMessageTime = 1767225000000,
      unreadCount = 0,
      messages = [\<lparr>id_msg = js ''msg_1'', conversationId = js ''conv_u1'', senderId = js ''u1'',
                   text_msg = js ''Hi!'', timestamp = 1767225000000, read = True\<rparr>]\<rparr>"

definition example_conv2 :: conversation where
  "example_conv2 =
     \<lparr>id_conv = js ''conv_u2'', userId = js ''u2'', userName = js ''Zoe'',
      userImage = None, lastMessage = js ''Yo'', lastMessageTime = 1767224000000,
      unreadCount = 1,
      messages = [\<lparr>id_msg = js ''msg_1'', conversationId = js ''conv_u2'', senderId = js ''u2'',
                   text_msg = js ''Yo'', timestamp = 1767224000000, read = False\<rparr>]\<rparr>"

definition example_page :: messages_page where
  "example_page =
     \<lparr>conversations = [example_conv1, example_conv2],
      selectedConversation = Some example_conv1,
      messageInput = js ''hello'',
      storage_mp = empty_storage,
      ticks = 0\<rparr>"

definition example_actions :: "action list" where
  "example_actions = [Type (js ''hello''), Send, Delete (js ''conv_u2''), Reload]"


section \<open>Logout clears the storage\<close>

lemma startsWith_append: "startsWith (p @ k) p"
  by (simp add: startsWith_def)

lemma token_not_prefixed: "\<not> startsWith (js ''funloves_token'') PREFIX"
  by (simp add: startsWith_def PREFIX_def js_def)

text \<open>
  C1. After \<open>handleLogout\<close> no key of localStorage that starts with \<open>loveinthecity_\<close>
  holds an item, the unprefixed key \<open>funloves_token\<close> holds none either, the cache of
  the StorageManager is empty and the authenticated flag is false.
\<close>

theorem logout_clears_storage:
  "(\<forall>k. startsWith k PREFIX \<longrightarrow> localStorage (storage_app (handleLogout a)) k = None)
   \<and> localStorage (storage_app (handleLogout a)) (js ''funloves_token'') = None
   \<and> cache (storage_app (handleLogout a)) = Map.empty
   \<and> \<not> isAuthenticated (handleLogout a)"
  by (simp add: handleLogout_def storage_clear_def storage_clearUserProfile_def
      storage_remove_def localStorage_removeItem_def Let_def token_not_prefixed)

theorem logout_clears_storage_witness:
  "startsWith (PREFIX @ js ''userSession'') PREFIX
   \<and> localStorage (storage_app example_app) (PREFIX @ js ''userSession'') \<noteq> None
   \<and> localStorage (storage_app (handleLogout example_app)) (PREFIX @ js ''userSession'') = None
   \<and> localStorage (storage_app example_app) (js ''funloves_token'') \<noteq> None
   \<and> localStorage (storage_app (handleLogout example_app)) (js ''funloves_token'') = None"
proof -
  note logout = logout_clears_storage [of example_app]
  have a: "startsWith (PREFIX @ js ''userSession'') PREFIX"
    by (rule startsWith_append)
  have b: "localStorage (storage_app example_app) (PREFIX @ js ''userSession'') \<noteq> None"
    by (simp add: example_app_def example_storage_def example_items_def PREFIX_def js_def)
  have c: "localStorage (storage_app (handleLogout example_app)) (PREFIX @ js ''userSession'') = None"
    using logout a by blast
  have d: "localStorage (storage_app example_app) (js ''funloves_token'') \<noteq> None"
    by (simp add: example_app_def example_storage_def example_items_def PREFIX_def js_def)
  have e: "localStorage (storage_app (handleLogout example_app)) (js ''funloves_token'') = None"
    using logout by blast
  from a b c d e show ?thesis by (intro conjI)
qed


section \<open>Login\<close>

text \<open>
  C3. When the phone number or the password is empty after trimming, \<open>handleLogin\<close>
  returns with a non-empty message (the one for the phone number if that is blank, else
  the one for the password), the loading flag lowered, the storage as it was, and no
  call of \<open>onLogin\<close>; this holds for every environment.
\<close>

theorem handleLogin_empty_field:
  "trim (phone w) = [] \<or> trim (password w) = [] \<Longrightarrow>
   \<exists>w'. handleLogin e w = Inr w'
      \<and> error w' = (if trim (phone w) = [] then msg_phone else msg_password)
      \<and> error w' \<noteq> []
      \<and> loading w' = False
      \<and> store w' = store w
      \<and> onLogin_calls w' = onLogin_calls w
      \<and> phone w' = phone w \<and> password w' = password w"
  by (auto simp: handleLogin_def handleLogin_try_def msg_phone_def msg_password_def)

theorem handleLogin_empty_field_witness:
  "trim (phone blank_login) = []
   \<and> (\<exists>w'. handleLogin example_env blank_login = Inr w'
         \<and> error w' = msg_phone \<and> loading w' = False
         \<and> store w' = empty_storage \<and> onLogin_calls w' = 0)"
proof -
  have blank: "trim (phone blank_login) = []"
    by (simp add: blank_login_def example_login_def trim_def js_def is_ws_def)
  from handleLogin_empty_field [OF disjI1, OF blank, of example_env] blank
  show ?thesis by (auto simp: blank_login_def example_login_def)
qed

lemma session_key_neq_profile_key:
  "js ''userSession'' \<noteq> js ''userProfile''" "js ''userProfile'' \<noteq> js ''userSession''"
  by (simp_all add: js_def)

lemma new_session_frame:
  "new_session e (w\<lparr>error := m, loading := l\<rparr>) = new_session e w"
  by (simp add: new_session_def)

lemma default_profile_frame:
  "default_profile us (w\<lparr>error := m, loading := l\<rparr>) = default_profile us w"
  by (simp add: default_profile_def)

text \<open>
  C7. \<open>handleLogin\<close> never lets an exception out, and the failure message is not empty.
  With a phone number and a password that are not blank, whichever call of the \<open>try\<close>
  block throws (the write of the session, the read of the profile, the write of the
  default profile or \<open>onLogin\<close>), the handler ends with the failure message and the
  loading flag lowered, the storage being the one reached before the throw; when none of
  them throws it ends without a message.
\<close>

theorem handleLogin_catches:
  "(\<exists>w'. handleLogin e w = Inr w')
   \<and> msg_failed \<noteq> []
   \<and> (trim (phone w) \<noteq> [] \<and> trim (password w) \<noteq> [] \<longrightarrow>
        (\<forall>x. env_set e (js ''userSession'') (SessionV (new_session e w)) (Some sessionTTL) (store w) = Inl x
           \<longrightarrow> handleLogin e w = Inr (w\<lparr>error := msg_failed, loading := False\<rparr>))
      \<and> (\<forall>st1 x.
            env_set e (js ''userSession'') (SessionV (new_session e w)) (Some sessionTTL) (store w) = Inr st1
            \<and> env_get e (js ''userProfile'') st1 = Inl x
           \<longrightarrow> handleLogin e w = Inr (w\<lparr>error := msg_failed, loading := False, store := st1\<rparr>))
      \<and> (\<forall>st1 x.
            env_set e (js ''userSession'') (SessionV (new_session e w)) (Some sessionTTL) (store w) = Inr st1
            \<and> env_get e (js ''userProfile'') st1 = Inr None
            \<and> env_set e (js ''userProfile'') (ProfileV (default_profile (new_session e w) w)) None st1 = Inl x
           \<longrightarrow> handleLogin e w = Inr (w\<lparr>error := msg_failed, loading := False, store := st1\<rparr>))
      \<and> (\<forall>st1 st2 x.
            env_set e (js ''userSession'') (SessionV (new_session e w)) (Some sessionTTL) (store w) = Inr st1
            \<and> (env_get e (js ''userProfile'') st1 = Inr None
                 \<and> env_set e (js ''userProfile'') (ProfileV (default_profile (new_session e w) w)) None st1 = Inr st2
               \<or> (\<exists>userProfile. env_get e (js ''userProfile'') st1 = Inr (Some userProfile)) \<and> st2 = st1)
            \<and> onLogin e st2 = Inl x
           \<longrightarrow> handleLogin e w =
                 Inr (w\<lparr>error := msg_failed, loading := False, store := st2,
                        onLogin_calls := Suc (onLogin_calls w)\<rparr>))
      \<and> (\<forall>st1 st2 st3.
            env_set e (js ''userSession'') (SessionV (new_session e w)) (Some sessionTTL) (store w) = Inr st1
            \<and> (env_get e (js ''userProfile'') st1 = Inr None
                 \<and> env_set e (js ''userProfile'') (ProfileV (default_profile (new_session e w) w)) None st1 = Inr st2
               \<or> (\<exists>userProfile. env_get e (js ''userProfile'') st1 = Inr (Some userProfile)) \<and> st2 = st1)
            \<and> onLogin e st2 = Inr st3
           \<longrightarrow> handleLogin e w =
                 Inr (w\<lparr>error := [], loading := False, store := st3,
                        onLogin_calls := Suc (onLogin_calls w)\<rparr>)))"
proof (intro conjI impI allI)
  show "\<exists>w'. handleLogin e w = Inr w'"
    by (auto simp: handleLogin_def split: sum.splits prod.splits)
  show "msg_failed \<noteq> []"
    by (simp add: msg_failed_def)
next
  fix x
  assume "trim (phone w) \<noteq> [] \<and> trim (password w) \<noteq> []"
    and "env_set e (js ''userSession'') (SessionV (new_session e w)) (Some sessionTTL) (store w) = Inl x"
  then show "handleLogin e w = Inr (w\<lparr>error := msg_failed, loading := False\<rparr>)"
    by (simp add: handleLogin_def handleLogin_try_def new_session_frame Let_def)
next
  fix st1 x
  assume "trim (phone w) \<noteq> [] \<and> trim (password w) \<noteq> []"
    and "env_set e (js ''userSession'') (SessionV (new_session e w)) (Some sessionTTL) (store w) = Inr st1
            \<and> env_get e (js ''userProfile'') st1 = Inl x"
  then show "handleLogin e w = Inr (w\<lparr>error := msg_failed, loading := False, store := st1\<rparr>)"
    by (simp add: handleLogin_def handleLogin_try_def new_session_frame Let_def)
next
  fix st1 x
  assume "trim (phone w) \<noteq> [] \<and> trim (password w) \<noteq> []"
    and "env_set e (js ''userSession'') (SessionV (new_session e w)) (Some sessionTTL) (store w) = Inr st1
            \<and> env_get e (js ''userProfile'') st1 = Inr None
            \<and> env_set e (js ''userProfile'') (ProfileV (default_profile (new_session e w) w)) None st1 = Inl x"
  then show "handleLogin e w = Inr (w\<lparr>error := msg_failed, loading := False, store := st1\<rparr>)"
    by (simp add: handleLogin_def handleLogin_try_def new_session_frame default_profile_frame Let_def)
next
  fix st1 st2 x
  assume "trim (phone w) \<noteq> [] \<and> trim (password w) \<noteq> []"
    and "env_set e (js ''userSession'') (SessionV (new_session e w)) (Some sessionTTL) (store w) = Inr st1
            \<and> (env_get e (js ''userProfile'') st1 = Inr None
                 \<and> env_set e (js ''userProfile'') (ProfileV (default_profile (new_session e w) w)) None st1 = Inr st2
               \<or> (\<exists>userProfile. env_get e (js ''userProfile'') st1 = Inr (Some userProfile)) \<and> st2 = st1)
            \<and> onLogin e st2 = Inl x"
  then show "handleLogin e w =
                 Inr (w\<lparr>error := msg_failed, loading := False, store := st2,
                        onLogin_calls := Suc (onLogin_calls w)\<rparr>)"
    by (auto simp: handleLogin_def handleLogin_try_def new_session_frame default_profile_frame Let_def)
next
  fix st1 st2 st3
  assume "trim (phone w) \<noteq> [] \<and> trim (password w) \<noteq> []"
    and "env_set e (js ''userSession'') (SessionV (new_session e w)) (Some sessionTTL) (store w) = Inr st1
            \<and> (env_get e (js ''userProfile'') st1 = Inr None
                 \<and> env_set e (js ''userProfile'') (ProfileV (default_profile (new_session e w) w)) None st1 = Inr st2
               \<or> (\<exists>userProfile. env_get e (js ''userProfile'') st1 = Inr (Some userProfile)) \<and> st2 = st1)
            \<and> onLogin e st2 = Inr st3"
  then show "handleLogin e w =
                 Inr (w\<lparr>error := [], loading := False, store := st3,
                        onLogin_calls := Suc (onLogin_calls w)\<rparr>)"
    by (auto simp: handleLogin_def handleLogin_try_def new_session_frame default_profile_frame Let_def)
qed


theorem handleLogin_catches_witness:
  "trim (phone example_login) \<noteq> [] \<and> trim (password example_login) \<noteq> []
   \<and> env_set failing_env (js ''userSession'') (SessionV (new_session failing_env example_login))
        (Some sessionTTL) (store example_login) = Inl (Exception (js ''QuotaExceededError''))
   \<and> handleLogin failing_env example_login = Inr (example_login\<lparr>error := msg_failed\<rparr>)
   \<and> (\<exists>st1 st2.
         env_set throwing_callback_env (js ''userSession'')
           (SessionV (new_session throwing_callback_env example_login)) (Some sessionTTL)
           (store example_login) = Inr st1
       \<and> env_get throwing_callback_env (js ''userProfile'') st1 = Inr None
       \<and> env_set throwing_callback_env (js ''userProfile'')
           (ProfileV (default_profile (new_session throwing_callback_env example_login) example_login))
           None st1 = Inr st2
       \<and> onLogin throwing_callback_env st2 = Inl (Exception (js ''TypeError''))
       \<and> handleLogin throwing_callback_env example_login =
           Inr (example_login\<lparr>error := msg_failed, store := st2, onLogin_calls := 1\<rparr>))"
proof -
  have p: "trim (phone example_login) \<noteq> [] \<and> trim (password example_login) \<noteq> []"
    by (simp add: example_login_def trim_def js_def is_ws_def)
  have t: "env_set failing_env (js ''userSession'') (SessionV (new_session failing_env example_login))
        (Some sessionTTL) (store example_login) = Inl (Exception (js ''QuotaExceededError''))"
    by (simp add: failing_env_def)
  note c1 = handleLogin_catches [of failing_env example_login, THEN conjunct2, THEN conjunct2,
      THEN mp, OF p, THEN conjunct1, THEN spec, THEN mp, OF t]
  have 1: "handleLogin failing_env example_login = Inr (example_login\<lparr>error := msg_failed\<rparr>)"
    using c1 by (simp add: example_login_def)
  define st1 where "st1 = storage_set (js ''userSession'')
      (SessionV (new_session throwing_callback_env example_login)) (Some sessionTTL) (store example_login)"
  define st2 where "st2 = storage_set (js ''userProfile'')
      (ProfileV (default_profile (new_session throwing_callback_env example_login) example_login)) None st1"
  have a: "env_set throwing_callback_env (js ''userSession'')
           (SessionV (new_session throwing_callback_env example_login)) (Some sessionTTL)
           (store example_login) = Inr st1"
    by (simp add: st1_def throwing_callback_env_def manager_env_def)
  have b: "env_get throwing_callback_env (js ''userProfile'') st1 = Inr None"
    by (simp add: st1_def throwing_callback_env_def manager_env_def storage_get_def storage_set_def
        example_login_def empty_storage_def js_def PREFIX_def)
  have c: "env_set throwing_callback_env (js ''userProfile'')
           (ProfileV (default_profile (new_session throwing_callback_env example_login) example_login))
           None st1 = Inr st2"
    by (simp add: st2_def throwing_callback_env_def manager_env_def)
  have d: "onLogin throwing_callback_env st2 = Inl (Exception (js ''TypeError''))"
    by (simp add: throwing_callback_env_def manager_env_def)
  have h: "env_set throwing_callback_env (js ''userSession'')
           (SessionV (new_session throwing_callback_env example_login)) (Some sessionTTL)
           (store example_login) = Inr st1
       \<and> (env_get throwing_callback_env (js ''userProfile'') st1 = Inr None
           \<and> env_set throwing_callback_env (js ''userProfile'')
               (ProfileV (default_profile (new_session throwing_callback_env example_login) example_login))
               None st1 = Inr st2
          \<or> (\<exists>userProfile. env_get throwing_callback_env (js ''userProfile'') st1 = Inr (Some userProfile))
              \<and> st2 = st1)
       \<and> onLogin throwing_callback_env st2 = Inl (Exception (js ''TypeError''))"
    using a b c d by blast
  note c4 = handleLogin_catches [of throwing_callback_env example_login, THEN conjunct2, THEN conjunct2,
      THEN mp, OF p, THEN conjunct2, THEN conjunct2, THEN conjunct2, THEN conjunct1,
      THEN spec, THEN spec, THEN spec, THEN mp, OF h]
  have 2: "handleLogin throwing_callback_env example_login =
           Inr (example_login\<lparr>error := msg_failed, store := st2, onLogin_calls := 1\<rparr>)"
    using c4 by (simp add: example_login_def)
  from a b c d 2 have "\<exists>st1 st2.
         env_set throwing_callback_env (js ''userSession'')
           (SessionV (new_session throwing_callback_env example_login)) (Some sessionTTL)
           (store example_login) = Inr st1
       \<and> env_get throwing_callback_env (js ''userProfile'') st1 = Inr None
       \<and> env_set throwing_callback_env (js ''userProfile'')
           (ProfileV (default_profile (new_session throwing_callback_env example_login) example_login))
           None st1 = Inr st2
       \<and> onLogin throwing_callback_env st2 = Inl (Exception (js ''TypeError''))
       \<and> handleLogin throwing_callback_env example_login =
           Inr (example_login\<lparr>error := msg_failed, store := st2, onLogin_calls := 1\<rparr>)"
    by (intro exI [of _ st1] exI [of _ st2] conjI)
  with p t 1 show ?thesis by (intro conjI) (elim conjE, assumption)+
qed


lemma manager_env_ops:
  "env_set (manager_env cb rnd isostr t) = (\<lambda>key v ttl st. Inr (storage_set key v ttl st))"
  "env_get (manager_env cb rnd isostr t) = (\<lambda>key st. Inr (storage_get key st))"
  "onLogin (manager_env cb rnd isostr t) = cb"
  by (simp_all add: manager_env_def)

lemma handleLogin_manager:
  assumes "trim (phone w) \<noteq> []" and "trim (password w) \<noteq> []"
  shows "handleLogin (manager_env cb rnd isostr t) w =
     (let e = manager_env cb rnd isostr t;
          st1 = storage_set (js ''userSession'') (SessionV (new_session e w)) (Some sessionTTL) (store w);
          st2 = (if storage_get (js ''userProfile'') st1 = None
                 then storage_set (js ''userProfile'') (ProfileV (default_profile (new_session e w) w)) None st1
                 else st1)
      in case cb st2 of
           Inr st3 \<Rightarrow> Inr (w\<lparr>error := [], loading := False, store := st3,
                            onLogin_calls := Suc (onLogin_calls w)\<rparr>)
         | Inl x \<Rightarrow> Inr (w\<lparr>error := msg_failed, loading := False, store := st2,
                           onLogin_calls := Suc (onLogin_calls w)\<rparr>))"
  using assms
  by (simp add: handleLogin_def handleLogin_try_def manager_env_ops Let_def
      new_session_frame default_profile_frame split: sum.splits)

lemma storage_get_other_key:
  "k \<noteq> k' \<Longrightarrow> storage_get k (storage_set k' v ttl st) = storage_get k st"
  by (simp add: storage_get_def storage_set_def split: option.splits)

lemma storage_get_same_key:
  "storage_get k (storage_set k v ttl st) = Some v"
  by (simp add: storage_get_def storage_set_def)

text \<open>
  C4. With the StorageManager as storage and a phone number and password that are not
  blank, \<open>handleLogin\<close> calls \<open>onLogin\<close> once, on a storage in which the key
  \<open>loveinthecity_userSession\<close> holds the wrapped session record (identifier \<open>user_\<close>
  followed by nine characters of the random string, the phone number, the authenticated
  flag set, the login time, the last-active time) with the time-to-live of one day; the
  handler ends without error when the callback returns.
\<close>

theorem handleLogin_persists_session:
  assumes "trim (phone w) \<noteq> []" and "trim (password w) \<noteq> []"
  shows "\<exists>st userSession.
     userSession = \<lparr>id_us = js ''user_'' @ take 9 (drop 2 rnd), phone_us = phone w,
                     isAuthenticated_us = True, loginTime = isostr, lastActive = t\<rparr>
     \<and> localStorage st (PREFIX @ js ''userSession'') = Some (Wrapped (SessionV userSession) (Some 86400000))
     \<and> storage_get (js ''userSession'') st = Some (SessionV userSession)
     \<and> (case cb st of
           Inr st' \<Rightarrow> handleLogin (manager_env cb rnd isostr t) w =
                        Inr (w\<lparr>error := [], loading := False, store := st',
                               onLogin_calls := Suc (onLogin_calls w)\<rparr>)
         | Inl x \<Rightarrow> handleLogin (manager_env cb rnd isostr t) w =
                        Inr (w\<lparr>error := msg_failed, loading := False, store := st,
                               onLogin_calls := Suc (onLogin_calls w)\<rparr>))"
proof -
  define us where "us = new_session (manager_env cb rnd isostr t) w"
  define st1 where "st1 = storage_set (js ''userSession'') (SessionV us) (Some sessionTTL) (store w)"
  define st2 where "st2 = (if storage_get (js ''userProfile'') st1 = None
                 then storage_set (js ''userProfile'') (ProfileV (default_profile us w)) None st1
                 else st1)"
  have us: "us = \<lparr>id_us = js ''user_'' @ take 9 (drop 2 rnd), phone_us = phone w,
                     isAuthenticated_us = True, loginTime = isostr, lastActive = t\<rparr>"
    by (simp add: us_def new_session_def manager_env_def substr_def)
  have neq: "PREFIX @ js ''userProfile'' \<noteq> PREFIX @ js ''userSession''"
    using session_key_neq_profile_key by simp
  have ls: "localStorage st2 (PREFIX @ js ''userSession'') = Some (Wrapped (SessionV us) (Some 86400000))"
    using neq by (simp add: st2_def st1_def storage_set_def sessionTTL_def)
  have ca: "cache st2 (js ''userSession'') = Some (SessionV us)"
    using session_key_neq_profile_key by (simp add: st2_def st1_def storage_set_def)
  have get: "storage_get (js ''userSession'') st2 = Some (SessionV us)"
    by (simp add: storage_get_def ca)
  have run: "handleLogin (manager_env cb rnd isostr t) w =
      (case cb st2 of
           Inr st3 \<Rightarrow> Inr (w\<lparr>error := [], loading := False, store := st3,
                            onLogin_calls := Suc (onLogin_calls w)\<rparr>)
         | Inl x \<Rightarrow> Inr (w\<lparr>error := msg_failed, loading := False, store := st2,
                           onLogin_calls := Suc (onLogin_calls w)\<rparr>))"
    unfolding handleLogin_manager [OF assms] Let_def st2_def st1_def us_def by (rule refl)
  have "case cb st2 of
           Inr st' \<Rightarrow> handleLogin (manager_env cb rnd isostr t) w =
                        Inr (w\<lparr>error := [], loading := False, store := st',
                               onLogin_calls := Suc (onLogin_calls w)\<rparr>)
         | Inl x \<Rightarrow> handleLogin (manager_env cb rnd isostr t) w =
                        Inr (w\<lparr>error := msg_failed, loading := False, store := st2,
                               onLogin_calls := Suc (onLogin_calls w)\<rparr>)"
    unfolding run by (simp split: sum.splits)
  with ls get us show ?thesis by blast
qed


theorem handleLogin_persists_session_witness:
  "trim (phone example_login) \<noteq> [] \<and> trim (password example_login) \<noteq> []
   \<and> (\<exists>st. localStorage st (PREFIX @ js ''userSession'') =
              Some (Wrapped (SessionV example_session) (Some 86400000))
         \<and> handleLogin example_env example_login =
              Inr (example_login\<lparr>store := st, onLogin_calls := 1\<rparr>))"
proof -
  have p: "trim (phone example_login) \<noteq> []" and q: "trim (password example_login) \<noteq> []"
    by (simp_all add: example_login_def trim_def js_def is_ws_def)
  have s: "\<lparr>id_us = js ''user_'' @ take 9 (drop 2 (js ''0.4fzyo82mvyr'')),
            phone_us = phone example_login, isAuthenticated_us = True,
            loginTime = js ''2026-01-01T00:00:00.000Z'', lastActive = 1767225600000\<rparr>
           = example_session"
    by (simp add: example_session_def example_login_def js_def)
  from handleLogin_persists_session [OF p q, of "js ''0.4fzyo82mvyr''"
      "js ''2026-01-01T00:00:00.000Z''" 1767225600000 Inr]
  obtain st where
    "localStorage st (PREFIX @ js ''userSession'') = Some (Wrapped (SessionV example_session) (Some 86400000))"
    "handleLogin example_env example_login =
       Inr (example_login\<lparr>error := [], loading := False, store := st,
              onLogin_calls := Suc (onLogin_calls example_login)\<rparr>)"
    unfolding s example_env_def by auto
  then have "localStorage st (PREFIX @ js ''userSession'') =
              Some (Wrapped (SessionV example_session) (Some 86400000))
         \<and> handleLogin example_env example_login =
              Inr (example_login\<lparr>store := st, onLogin_calls := 1\<rparr>)"
    by (simp add: example_login_def)
  with p q show ?thesis by blast
qed

text \<open>
  C5. In the same setting, let \<open>st\<close> be the storage on which \<open>onLogin\<close> is called. If the
  storage held no profile before the login, \<open>st\<close> holds the default profile (the
  identifier of the new session, name \<open>User\<close>, age 25, the avatar URL ending in the phone
  number, not VIP, no following, no fans, an empty wallet); if it held a profile, the
  profile read from \<open>st\<close> is the same and its items in localStorage and in the cache are
  untouched.
\<close>

theorem handleLogin_default_profile:
  assumes "trim (phone w) \<noteq> []" and "trim (password w) \<noteq> []"
  shows "\<exists>st.
     (case cb st of
        Inr st' \<Rightarrow> handleLogin (manager_env cb rnd isostr t) w =
                     Inr (w\<lparr>error := [], loading := False, store := st',
                            onLogin_calls := Suc (onLogin_calls w)\<rparr>)
      | Inl x \<Rightarrow> handleLogin (manager_env cb rnd isostr t) w =
                     Inr (w\<lparr>error := msg_failed, loading := False, store := st,
                            onLogin_calls := Suc (onLogin_calls w)\<rparr>))
     \<and> (storage_get (js ''userProfile'') (store w) = None \<longrightarrow>
          (\<exists>userProfile userSession.
             userProfile =
               \<lparr>id_up = js ''user_'' @ take 9 (drop 2 rnd), name_up = js ''User'', age = 25,
                avatar = js ''https://api.dicebear.com/7.x/avataaars/svg?seed='' @ phone w,
                isVip = False, following = 0, fans = 0, wallet = 0\<rparr>
             \<and> localStorage st (PREFIX @ js ''userProfile'') = Some (Wrapped (ProfileV userProfile) None)
             \<and> storage_get (js ''userProfile'') st = Some (ProfileV userProfile)
             \<and> storage_get (js ''userSession'') st = Some (SessionV userSession)
             \<and> id_up userProfile = id_us userSession))
     \<and> (\<forall>v. storage_get (js ''userProfile'') (store w) = Some v \<longrightarrow>
          storage_get (js ''userProfile'') st = Some v
          \<and> localStorage st (PREFIX @ js ''userProfile'') = localStorage (store w) (PREFIX @ js ''userProfile'')
          \<and> cache st (js ''userProfile'') = cache (store w) (js ''userProfile''))"
proof -
  define us where "us = new_session (manager_env cb rnd isostr t) w"
  define st1 where "st1 = storage_set (js ''userSession'') (SessionV us) (Some sessionTTL) (store w)"
  define st2 where "st2 = (if storage_get (js ''userProfile'') st1 = None
                 then storage_set (js ''userProfile'') (ProfileV (default_profile us w)) None st1
                 else st1)"
  have idus: "id_us us = js ''user_'' @ take 9 (drop 2 rnd)"
    by (simp add: us_def new_session_def manager_env_def substr_def)
  have neq: "PREFIX @ js ''userProfile'' \<noteq> PREFIX @ js ''userSession''"
    using session_key_neq_profile_key by simp
  have get1: "storage_get (js ''userProfile'') st1 = storage_get (js ''userProfile'') (store w)"
    unfolding st1_def by (rule storage_get_other_key) (rule session_key_neq_profile_key)
  have run: "handleLogin (manager_env cb rnd isostr t) w =
      (case cb st2 of
           Inr st3 \<Rightarrow> Inr (w\<lparr>error := [], loading := False, store := st3,
                            onLogin_calls := Suc (onLogin_calls w)\<rparr>)
         | Inl x \<Rightarrow> Inr (w\<lparr>error := msg_failed, loading := False, store := st2,
                           onLogin_calls := Suc (onLogin_calls w)\<rparr>))"
    unfolding handleLogin_manager [OF assms] Let_def st2_def st1_def us_def by (rule refl)
  have a: "case cb st2 of
           Inr st' \<Rightarrow> handleLogin (manager_env cb rnd isostr t) w =
                        Inr (w\<lparr>error := [], loading := False, store := st',
                               onLogin_calls := Suc (onLogin_calls w)\<rparr>)
         | Inl x \<Rightarrow> handleLogin (manager_env cb rnd isostr t) w =
                        Inr (w\<lparr>error := msg_failed, loading := False, store := st2,
                               onLogin_calls := Suc (onLogin_calls w)\<rparr>)"
    unfolding run by (simp split: sum.splits)
  have dp: "default_profile us w =
               \<lparr>id_up = js ''user_'' @ take 9 (drop 2 rnd), name_up = js ''User'', age = 25,
                avatar = js ''https://api.dicebear.com/7.x/avataaars/svg?seed='' @ phone w,
                isVip = False, following = 0, fans = 0, wallet = 0\<rparr>"
    unfolding default_profile_def idus by (rule refl)
  have b: "localStorage st2 (PREFIX @ js ''userProfile'') = Some (Wrapped (ProfileV (default_profile us w)) None)
             \<and> storage_get (js ''userProfile'') st2 = Some (ProfileV (default_profile us w))
             \<and> storage_get (js ''userSession'') st2 = Some (SessionV us)
             \<and> id_up (default_profile us w) = id_us us"
    if none: "storage_get (js ''userProfile'') (store w) = None"
  proof -
    have st2: "st2 = storage_set (js ''userProfile'') (ProfileV (default_profile us w)) None st1"
      using none get1 by (simp add: st2_def)
    have b1: "localStorage st2 (PREFIX @ js ''userProfile'') = Some (Wrapped (ProfileV (default_profile us w)) None)"
      unfolding st2 storage_set_def by simp
    have b2: "storage_get (js ''userProfile'') st2 = Some (ProfileV (default_profile us w))"
      unfolding st2 by (rule storage_get_same_key)
    have b3: "storage_get (js ''userSession'') st2 = Some (SessionV us)"
      unfolding st2 st1_def
      by (simp only: storage_get_other_key [OF session_key_neq_profile_key(1)] storage_get_same_key)
    have b4: "id_up (default_profile us w) = id_us us"
      unfolding default_profile_def by simp
    from b1 b2 b3 b4 show ?thesis by (intro conjI)
  qed
  have c: "storage_get (js ''userProfile'') st2 = Some v
          \<and> localStorage st2 (PREFIX @ js ''userProfile'') = localStorage (store w) (PREFIX @ js ''userProfile'')
          \<and> cache st2 (js ''userProfile'') = cache (store w) (js ''userProfile'')"
    if some: "storage_get (js ''userProfile'') (store w) = Some v" for v
  proof -
    have st2: "st2 = st1" using some get1 by (simp add: st2_def)
    have c1: "storage_get (js ''userProfile'') st2 = Some v"
      unfolding st2 get1 by (rule some)
    have c2: "localStorage st1 (PREFIX @ js ''userProfile'') = localStorage (store w) (PREFIX @ js ''userProfile'')"
      unfolding st1_def storage_set_def using neq by simp
    have c3: "cache st1 (js ''userProfile'') = cache (store w) (js ''userProfile'')"
      unfolding st1_def storage_set_def using session_key_neq_profile_key by simp
    from c1 c2 c3 show ?thesis unfolding st2 by (intro conjI)
  qed
  show ?thesis
  proof (intro exI [of _ st2] conjI impI allI)
    show "case cb st2 of
           Inr st' \<Rightarrow> handleLogin (manager_env cb rnd isostr t) w =
                        Inr (w\<lparr>error := [], loading := False, store := st',
                               onLogin_calls := Suc (onLogin_calls w)\<rparr>)
         | Inl x \<Rightarrow> handleLogin (manager_env cb rnd isostr t) w =
                        Inr (w\<lparr>error := msg_failed, loading := False, store := st2,
                               onLogin_calls := Suc (onLogin_calls w)\<rparr>)"
      by (rule a)
  next
    assume none: "storage_get (js ''userProfile'') (store w) = None"
    show "\<exists>userProfile userSession.
             userProfile =
               \<lparr>id_up = js ''user_'' @ take 9 (drop 2 rnd), name_up = js ''User'', age = 25,
                avatar = js ''https://api.dicebear.com/7.x/avataaars/svg?seed='' @ phone w,
                isVip = False, following = 0, fans = 0, wallet = 0\<rparr>
             \<and> localStorage st2 (PREFIX @ js ''userProfile'') = Some (Wrapped (ProfileV userProfile) None)
             \<and> storage_get (js ''userProfile'') st2 = Some (ProfileV userProfile)
             \<and> storage_get (js ''userSession'') st2 = Some (SessionV userSession)
             \<and> id_up userProfile = id_us userSession"
      using b [OF none] dp
      by (intro exI [of _ "default_profile us w"] exI [of _ us]) (intro conjI, simp_all only:)
  next
    fix v assume some: "storage_get (js ''userProfile'') (store w) = Some v"
    from c [OF some] show "storage_get (js ''userProfile'') st2 = Some v" by (rule conjunct1)
    from c [OF some] show "localStorage st2 (PREFIX @ js ''userProfile'') = localStorage (store w) (PREFIX @ js ''userProfile'')"
      by (elim conjE)
    from c [OF some] show "cache st2 (js ''userProfile'') = cache (store w) (js ''userProfile'')"
      by (elim conjE)
  qed
qed

theorem handleLogin_default_profile_witness:
  "trim (phone example_login) \<noteq> [] \<and> trim (password example_login) \<noteq> []
   \<and> storage_get (js ''userProfile'') (store example_login) = None
   \<and> (\<exists>st. handleLogin example_env example_login =
              Inr (example_login\<lparr>store := st, onLogin_calls := 1\<rparr>)
         \<and> localStorage st (PREFIX @ js ''userProfile'') =
              Some (Wrapped (ProfileV
                \<lparr>id_up = js ''user_4fzyo82mv'', name_up = js ''User'', age = 25,
                 avatar = js ''https://api.dicebear.com/7.x/avataaars/svg?seed=13800138000'',
                 isVip = False, following = 0, fans = 0, wallet = 0\<rparr>) None))"
proof -
  have p: "trim (phone example_login) \<noteq> []" and q: "trim (password example_login) \<noteq> []"
    by (simp_all add: example_login_def trim_def js_def is_ws_def)
  have n: "storage_get (js ''userProfile'') (store example_login) = None"
    by (simp add: example_login_def empty_storage_def storage_get_def)
  have d: "\<lparr>id_up = js ''user_'' @ take 9 (drop 2 (js ''0.4fzyo82mvyr'')), name_up = js ''User'',
            age = 25,
            avatar = js ''https://api.dicebear.com/7.x/avataaars/svg?seed='' @ phone example_login,
            isVip = False, following = 0, fans = 0, wallet = 0\<rparr>
           = \<lparr>id_up = js ''user_4fzyo82mv'', name_up = js ''User'', age = 25,
                 avatar = js ''https://api.dicebear.com/7.x/avataaars/svg?seed=13800138000'',
                 isVip = False, following = 0, fans = 0, wallet = 0\<rparr>"
    by (simp add: example_login_def js_def)
  from handleLogin_default_profile [OF p q, of Inr "js ''0.4fzyo82mvyr''"
      "js ''2026-01-01T00:00:00.000Z''" 1767225600000]
  obtain st where
    "handleLogin example_env example_login =
       Inr (example_login\<lparr>error := [], loading := False, store := st,
              onLogin_calls := Suc (onLogin_calls example_login)\<rparr>)"
    "localStorage st (PREFIX @ js ''userProfile'') =
              Some (Wrapped (ProfileV
                \<lparr>id_up = js ''user_4fzyo82mv'', name_up = js ''User'', age = 25,
                 avatar = js ''https://api.dicebear.com/7.x/avataaars/svg?seed=13800138000'',
                 isVip = False, following = 0, fans = 0, wallet = 0\<rparr>) None)"
    unfolding d example_env_def using n by auto
  then have "handleLogin example_env example_login =
              Inr (example_login\<lparr>store := st, onLogin_calls := 1\<rparr>)
         \<and> localStorage st (PREFIX @ js ''userProfile'') =
              Some (Wrapped (ProfileV
                \<lparr>id_up = js ''user_4fzyo82mv'', name_up = js ''User'', age = 25,
                 avatar = js ''https://api.dicebear.com/7.x/avataaars/svg?seed=13800138000'',
                 isVip = False, following = 0, fans = 0, wallet = 0\<rparr>) None)"
    by (simp add: example_login_def)
  with p q n show ?thesis by blast
qed


section \<open>The redirect gate and the mount check\<close>

lemma effect1_navigations: "navigations (effect1 get a) = navigations a"
  by (simp add: effect1_def split: sum.splits)

lemma effect2_navigations:
  "navigations (effect2 mnt auth a) =
     navigations a @ (if mnt \<and> \<not> auth then [login_redirect] else [])"
  by (simp add: effect2_def)

lemma commit_navigations:
  "navigations (commit get nav a) =
     navigations a @
       (if mounted a \<and> \<not> isAuthenticated a
           \<and> rendered a \<noteq> Some (isAuthenticated a, nav, mounted a)
        then [login_redirect] else [])"
  by (auto simp: commit_def Let_def effect2_navigations effect1_navigations
      split: option.splits)

lemma effect1_flags:
  "mounted (effect1 get a)"
  "isAuthenticated (effect1 get a) =
     (isAuthenticated a \<or> (\<exists>s. get (js ''userSession'') (storage_app a) = Inr (Some (SessionV s)) \<and> isAuthenticated_us s))"
  "rendered (effect1 get a) = rendered a" "storage_app (effect1 get a) = storage_app a"
  by (auto simp: effect1_def session_valid_def split: sum.splits option.splits stored.splits)

lemma effect2_flags:
  "mounted (effect2 m b a) = mounted a" "isAuthenticated (effect2 m b a) = isAuthenticated a"
  "rendered (effect2 m b a) = rendered a" "storage_app (effect2 m b a) = storage_app a"
  by (simp_all add: effect2_def)

lemma commit_flags:
  "rendered (commit get nav a) = Some (isAuthenticated a, nav, mounted a)"
  "mounted (commit get nav a) = (mounted a \<or> rendered a = None)"
  "isAuthenticated (commit get nav a) =
     (isAuthenticated a \<or> rendered a = None
        \<and> (\<exists>s. get (js ''userSession'') (storage_app a) = Inr (Some (SessionV s)) \<and> isAuthenticated_us s))"
  "storage_app (commit get nav a) = storage_app a"
  by (auto simp: commit_def Let_def effect1_flags effect2_flags split: option.splits)

lemma renders_authenticated:
  "isAuthenticated a \<Longrightarrow>
   isAuthenticated (renders get navs a) \<and> navigations (renders get navs a) = navigations a"
proof (induction navs arbitrary: a)
  case Nil
  then show ?case by simp
next
  case (Cons nav navs)
  from Cons.prems have "isAuthenticated (commit get nav a)"
    by (simp add: commit_flags)
  from Cons.IH [OF this] Cons.prems show ?case
    by (simp add: commit_navigations)
qed

lemma renders_unauthenticated:
  "\<not> isAuthenticated a \<Longrightarrow> mounted a \<Longrightarrow> rendered a \<noteq> None \<Longrightarrow>
   \<not> isAuthenticated (renders get navs a) \<and> mounted (renders get navs a)
   \<and> (\<exists>k. navigations (renders get navs a) = navigations a @ replicate k login_redirect)"
proof (induction navs arbitrary: a)
  case Nil
  then show ?case by simp
next
  case (Cons nav navs)
  have "\<not> isAuthenticated (commit get nav a)" "mounted (commit get nav a)"
    "rendered (commit get nav a) \<noteq> None"
    using Cons.prems by (simp_all add: commit_flags)
  from Cons.IH [OF this] obtain k where
    k: "\<not> isAuthenticated (renders get navs (commit get nav a))"
       "mounted (renders get navs (commit get nav a))"
       "navigations (renders get navs (commit get nav a)) =
          navigations (commit get nav a) @ replicate k login_redirect"
    by blast
  show ?case
  proof (cases "rendered a \<noteq> Some (isAuthenticated a, nav, mounted a)")
    case True
    with k Cons.prems have "navigations (renders get (nav # navs) a) =
        navigations a @ replicate (Suc k) login_redirect"
      by (simp add: commit_navigations)
    with k show ?thesis by (simp del: replicate.simps)
  next
    case False
    with k Cons.prems have "navigations (renders get (nav # navs) a) =
        navigations a @ replicate k login_redirect"
      by (simp add: commit_navigations)
    with k show ?thesis by simp
  qed
qed

lemma renders_after_change:
  assumes "\<not> isAuthenticated a" and "mounted a" and "rendered a = Some (True, nav0, mnt0)"
  shows "\<not> isAuthenticated (renders get (nav # navs) a) \<and> mounted (renders get (nav # navs) a)
   \<and> (\<exists>k. navigations (renders get (nav # navs) a) = navigations a @ replicate (Suc k) login_redirect)"
proof -
  have c: "\<not> isAuthenticated (commit get nav a)" "mounted (commit get nav a)"
    "rendered (commit get nav a) \<noteq> None"
    "navigations (commit get nav a) = navigations a @ [login_redirect]"
    using assms by (simp_all add: commit_flags commit_navigations)
  from renders_unauthenticated [OF c(1-3), of get navs] c(4)
  show ?thesis by (auto simp: replicate_app_Cons_same)
qed

lemma renders_mounted:
  "mounted a \<Longrightarrow> mounted (renders get navs a)"
  by (induction navs arbitrary: a) (simp_all add: commit_flags)

lemma renders_navigations:
  "\<exists>k. navigations (renders get navs a) = navigations a @ replicate k login_redirect"
proof (induction navs arbitrary: a)
  case Nil
  show ?case by simp
next
  case (Cons nav navs)
  from Cons [of "commit get nav a"] obtain k where
    k: "navigations (renders get navs (commit get nav a)) =
          navigations (commit get nav a) @ replicate k login_redirect"
    by blast
  show ?case
  proof (cases "mounted a \<and> \<not> isAuthenticated a
           \<and> rendered a \<noteq> Some (isAuthenticated a, nav, mounted a)")
    case True
    then have "navigations (commit get nav a) = navigations a @ [login_redirect]"
      by (auto simp: commit_navigations)
    with k have "navigations (renders get (nav # navs) a) =
        navigations a @ replicate (Suc k) login_redirect"
      by simp
    then show ?thesis by blast
  next
    case False
    then have "navigations (commit get nav a) = navigations a"
      by (auto simp: commit_navigations)
    with k have "navigations (renders get (nav # navs) a) =
        navigations a @ replicate k login_redirect"
      by simp
    then show ?thesis by blast
  qed
qed

lemma commit_initial:
  "mounted (commit get nav (initial_app st))"
  "isAuthenticated (commit get nav (initial_app st)) \<longleftrightarrow>
     (\<exists>s. get (js ''userSession'') st = Inr (Some (SessionV s)) \<and> isAuthenticated_us s)"
  "rendered (commit get nav (initial_app st)) = Some (False, nav, False)"
  "navigations (commit get nav (initial_app st)) = []"
  by (simp_all add: commit_flags commit_navigations) (simp_all add: initial_app_def)

lemma renders_mount:
  "mounted (renders get (nav # navs) (initial_app st))
   \<and> (isAuthenticated (renders get (nav # navs) (initial_app st)) \<longleftrightarrow>
        (\<exists>s. get (js ''userSession'') st = Inr (Some (SessionV s)) \<and> isAuthenticated_us s))"
proof (cases "\<exists>s. get (js ''userSession'') st = Inr (Some (SessionV s)) \<and> isAuthenticated_us s")
  case True
  then have "isAuthenticated (commit get nav (initial_app st))"
    by (simp add: commit_initial)
  moreover have m: "mounted (commit get nav (initial_app st))"
    by (rule commit_initial)
  ultimately show ?thesis
    using renders_authenticated [of "commit get nav (initial_app st)" get navs]
      renders_mounted [OF m, of get navs] True
    by simp
next
  case False
  then have "\<not> isAuthenticated (commit get nav (initial_app st))"
    by (simp add: commit_initial)
  from renders_unauthenticated [OF this commit_initial(1), of get navs] False
  show ?thesis by (simp add: commit_initial)
qed

lemma renders_mount_valid:
  assumes "\<exists>s. get (js ''userSession'') st = Inr (Some (SessionV s)) \<and> isAuthenticated_us s"
  shows "navigations (renders get navs (initial_app st)) = []"
proof (cases navs)
  case Nil
  then show ?thesis by (simp add: initial_app_def)
next
  case (Cons nav navs')
  from assms have "isAuthenticated (commit get nav (initial_app st))"
    by (simp add: commit_initial)
  from renders_authenticated [OF this, of get navs'] Cons show ?thesis
    by (simp add: commit_initial)
qed

lemma renders_mount_invalid:
  assumes "\<not> (\<exists>s. get (js ''userSession'') st = Inr (Some (SessionV s)) \<and> isAuthenticated_us s)"
  shows "\<exists>k. navigations (renders get (nav1 # nav2 # navs) (initial_app st)) =
           replicate (Suc k) login_redirect"
proof -
  define a1 where "a1 = commit get nav1 (initial_app st)"
  from assms have a1: "\<not> isAuthenticated a1" "mounted a1" "rendered a1 = Some (False, nav1, False)"
    "navigations a1 = []"
    unfolding a1_def by (simp_all add: commit_initial)
  then have c: "\<not> isAuthenticated (commit get nav2 a1)" "mounted (commit get nav2 a1)"
    "rendered (commit get nav2 a1) \<noteq> None"
    "navigations (commit get nav2 a1) = [login_redirect]"
    by (simp_all add: commit_flags commit_navigations)
  from renders_unauthenticated [OF c(1-3), of get navs] c(4)
  show ?thesis by (auto simp: replicate_app_Cons_same a1_def)
qed

lemma handleLogout_flags:
  "\<not> isAuthenticated (handleLogout a)" "mounted (handleLogout a) = mounted a"
  "rendered (handleLogout a) = rendered a" "navigations (handleLogout a) = navigations a"
  by (simp_all add: handleLogout_def Let_def)

text \<open>
  C2. Effect 2 issues the redirect to \<open>/login\<close> exactly when the render it belongs to
  saw \<open>mounted\<close> true and \<open>isAuthenticated\<close> false. A committed render issues it
  exactly when, in addition, one of the three dependencies (the flag, the \<open>navigate\<close>
  function, \<open>mounted\<close>) differs from the previous render; so a render that saw \<open>mounted\<close>
  false issues none. Over any sequence of renders, whatever \<open>navigate\<close> functions the
  router hands out: only redirects to \<open>/login\<close> are issued; none while the flag is true;
  none at all when mounting reads a valid session; at least one within the first two
  renders when it reads none; and at least one, beginning with the first render, after
  the flag has gone from true to false, in particular after \<open>handleLogout\<close>.
\<close>

theorem redirect_gate:
  "navigations (effect2 mnt auth a) =
     navigations a @ (if mnt \<and> \<not> auth then [login_redirect] else [])
   \<and> navigations (commit get nav a) =
       navigations a @
         (if mounted a \<and> \<not> isAuthenticated a
             \<and> rendered a \<noteq> Some (isAuthenticated a, nav, mounted a)
          then [login_redirect] else [])
   \<and> (\<not> mounted a \<longrightarrow> navigations (commit get nav a) = navigations a)
   \<and> (\<exists>k. navigations (renders get navs a) = navigations a @ replicate k login_redirect)
   \<and> (isAuthenticated a \<longrightarrow> navigations (renders get navs a) = navigations a)
   \<and> ((\<exists>s. get (js ''userSession'') st = Inr (Some (SessionV s)) \<and> isAuthenticated_us s) \<longrightarrow>
        navigations (renders get navs (initial_app st)) = [])
   \<and> (\<not> (\<exists>s. get (js ''userSession'') st = Inr (Some (SessionV s)) \<and> isAuthenticated_us s) \<longrightarrow>
        (\<exists>k. navigations (renders get (nav1 # nav2 # navs) (initial_app st)) =
               replicate (Suc k) login_redirect))
   \<and> (\<not> isAuthenticated a \<and> mounted a \<and> rendered a = Some (True, nav0, mnt0) \<longrightarrow>
        (\<exists>k. navigations (renders get (nav # navs) a) =
               navigations a @ replicate (Suc k) login_redirect))
   \<and> (mounted a \<and> rendered a = Some (True, nav0, mnt0) \<longrightarrow>
        \<not> isAuthenticated (renders get (nav # navs) (handleLogout a))
        \<and> (\<exists>k. navigations (renders get (nav # navs) (handleLogout a)) =
               navigations a @ replicate (Suc k) login_redirect))"
proof (intro conjI impI)
  show "navigations (effect2 mnt auth a) =
     navigations a @ (if mnt \<and> \<not> auth then [login_redirect] else [])"
    by (rule effect2_navigations)
  show c: "navigations (commit get nav a) =
       navigations a @
         (if mounted a \<and> \<not> isAuthenticated a
             \<and> rendered a \<noteq> Some (isAuthenticated a, nav, mounted a)
          then [login_redirect] else [])"
    by (rule commit_navigations)
  show "navigations (commit get nav a) = navigations a" if "\<not> mounted a"
    using that by (simp add: c)
  show "\<exists>k. navigations (renders get navs a) = navigations a @ replicate k login_redirect"
    by (rule renders_navigations)
  show "navigations (renders get navs a) = navigations a" if "isAuthenticated a"
    using renders_authenticated [OF that] by simp
  show "navigations (renders get navs (initial_app st)) = []"
    if "\<exists>s. get (js ''userSession'') st = Inr (Some (SessionV s)) \<and> isAuthenticated_us s"
    using that by (rule renders_mount_valid)
  show "\<exists>k. navigations (renders get (nav1 # nav2 # navs) (initial_app st)) =
               replicate (Suc k) login_redirect"
    if "\<not> (\<exists>s. get (js ''userSession'') st = Inr (Some (SessionV s)) \<and> isAuthenticated_us s)"
    using that by (rule renders_mount_invalid)
  show "\<exists>k. navigations (renders get (nav # navs) a) =
               navigations a @ replicate (Suc k) login_redirect"
    if "\<not> isAuthenticated a \<and> mounted a \<and> rendered a = Some (True, nav0, mnt0)"
    using that renders_after_change [of a nav0 mnt0 get nav navs] by blast
next
  assume h: "mounted a \<and> rendered a = Some (True, nav0, mnt0)"
  then have l: "\<not> isAuthenticated (handleLogout a)" "mounted (handleLogout a)"
    "rendered (handleLogout a) = Some (True, nav0, mnt0)"
    by (simp_all add: handleLogout_flags)
  from renders_after_change [OF l, of get nav navs]
  show "\<not> isAuthenticated (renders get (nav # navs) (handleLogout a))"
    and "\<exists>k. navigations (renders get (nav # navs) (handleLogout a)) =
               navigations a @ replicate (Suc k) login_redirect"
    by (simp_all add: handleLogout_flags)
qed

theorem redirect_gate_witness:
  "\<not> mounted (page_load Map.empty)
   \<and> navigations (commit manager_get 0 (page_load Map.empty)) = []
   \<and> mounted example_app \<and> rendered example_app = Some (True, 0, True)
   \<and> \<not> isAuthenticated (renders manager_get [0, 1, 1] (handleLogout example_app))
   \<and> navigations (renders manager_get [0, 1, 1] (handleLogout example_app))
       = [login_redirect, login_redirect]
   \<and> navigations (renders manager_get [0, 0] (handleLogout example_app)) = [login_redirect]"
proof -
  have m: "\<not> mounted (page_load Map.empty)" "navigations (page_load Map.empty) = []"
    by (simp_all add: page_load_def initial_app_def)
  have e: "mounted example_app \<and> rendered example_app = Some (True, 0, True)"
    by (simp add: example_app_def)
  have "\<not> mounted (page_load Map.empty) \<longrightarrow>
          navigations (commit manager_get 0 (page_load Map.empty)) = navigations (page_load Map.empty)"
    by (rule redirect_gate [THEN conjunct2, THEN conjunct2, THEN conjunct1])
  with m have 1: "navigations (commit manager_get 0 (page_load Map.empty)) = []"
    by simp
  have "mounted example_app \<and> rendered example_app = Some (True, 0, True) \<longrightarrow>
        \<not> isAuthenticated (renders manager_get (0 # [1, 1]) (handleLogout example_app))
        \<and> (\<exists>k. navigations (renders manager_get (0 # [1, 1]) (handleLogout example_app)) =
               navigations example_app @ replicate (Suc k) login_redirect)"
    by (rule redirect_gate [THEN conjunct2, THEN conjunct2, THEN conjunct2, THEN conjunct2,
          THEN conjunct2, THEN conjunct2, THEN conjunct2, THEN conjunct2])
  with e have 2: "\<not> isAuthenticated (renders manager_get [0, 1, 1] (handleLogout example_app))"
    by blast
  have 3: "navigations (renders manager_get [0, 1, 1] (handleLogout example_app))
       = [login_redirect, login_redirect]"
    by (simp add: commit_def handleLogout_def example_app_def effect2_def Let_def)
  have 4: "navigations (renders manager_get [0, 0] (handleLogout example_app)) = [login_redirect]"
    by (simp add: commit_def handleLogout_def example_app_def effect2_def Let_def)
  from m(1) 1 e 2 3 4 show ?thesis by (intro conjI) (elim conjE, assumption)+
qed


text \<open>
  C6. Starting from the initial state (flag false), Effect 1 sets \<open>mounted\<close>, and the
  flag is true afterwards exactly when the read of \<open>userSession\<close> returned a session
  record whose \<open>isAuthenticated\<close> is set; the same holds after any number of renders.
  After a page load over items that hold such a session under
  \<open>loveinthecity_userSession\<close>, the StorageManager's read makes the flag true and no
  redirect is issued; over items that hold none, the flag stays false.
\<close>

theorem mount_check:
  "mounted (effect1 get (initial_app st))
   \<and> (isAuthenticated (effect1 get (initial_app st)) \<longleftrightarrow>
        (\<exists>s. get (js ''userSession'') st = Inr (Some (SessionV s)) \<and> isAuthenticated_us s))
   \<and> mounted (renders get (nav # navs) (initial_app st))
   \<and> (isAuthenticated (renders get (nav # navs) (initial_app st)) \<longleftrightarrow>
        (\<exists>s. get (js ''userSession'') st = Inr (Some (SessionV s)) \<and> isAuthenticated_us s))
   \<and> (\<forall>s ttl. items (PREFIX @ js ''userSession'') = Some (Wrapped (SessionV s) ttl)
          \<and> isAuthenticated_us s \<longrightarrow>
        isAuthenticated (renders manager_get (nav # navs) (page_load items))
        \<and> navigations (renders manager_get (nav # navs) (page_load items)) = [])
   \<and> ((\<forall>s ttl. items (PREFIX @ js ''userSession'') = Some (Wrapped (SessionV s) ttl)
           \<longrightarrow> \<not> isAuthenticated_us s) \<longrightarrow>
        \<not> isAuthenticated (renders manager_get (nav # navs) (page_load items)))"
proof (intro conjI impI allI)
  show "mounted (effect1 get (initial_app st))"
    by (rule effect1_flags)
  show "isAuthenticated (effect1 get (initial_app st)) \<longleftrightarrow>
        (\<exists>s. get (js ''userSession'') st = Inr (Some (SessionV s)) \<and> isAuthenticated_us s)"
    by (simp add: effect1_flags) (simp add: initial_app_def)
  show "mounted (renders get (nav # navs) (initial_app st))"
    using renders_mount [of get nav navs st] by blast
  show "isAuthenticated (renders get (nav # navs) (initial_app st)) \<longleftrightarrow>
        (\<exists>s. get (js ''userSession'') st = Inr (Some (SessionV s)) \<and> isAuthenticated_us s)"
    using renders_mount [of get nav navs st] by blast
next
  fix s ttl
  assume h: "items (PREFIX @ js ''userSession'') = Some (Wrapped (SessionV s) ttl) \<and> isAuthenticated_us s"
  then have g: "\<exists>s. manager_get (js ''userSession'') \<lparr>localStorage = items, cache = Map.empty\<rparr>
               = Inr (Some (SessionV s)) \<and> isAuthenticated_us s"
    by (auto simp: manager_get_def storage_get_def)
  from g renders_mount [of manager_get nav navs "\<lparr>localStorage = items, cache = Map.empty\<rparr>"]
  show "isAuthenticated (renders manager_get (nav # navs) (page_load items))"
    unfolding page_load_def by blast
  from renders_mount_valid [where get = manager_get
      and st = "\<lparr>localStorage = items, cache = Map.empty\<rparr>", OF g]
  show "navigations (renders manager_get (nav # navs) (page_load items)) = []"
    unfolding page_load_def .
next
  assume h: "\<forall>s ttl. items (PREFIX @ js ''userSession'') = Some (Wrapped (SessionV s) ttl)
           \<longrightarrow> \<not> isAuthenticated_us s"
  have "\<not> (\<exists>s. manager_get (js ''userSession'') \<lparr>localStorage = items, cache = Map.empty\<rparr>
               = Inr (Some (SessionV s)) \<and> isAuthenticated_us s)"
    using h by (auto simp: manager_get_def storage_get_def split: option.splits item.splits)
  with renders_mount [of manager_get nav navs "\<lparr>localStorage = items, cache = Map.empty\<rparr>"]
  show "\<not> isAuthenticated (renders manager_get (nav # navs) (page_load items))"
    unfolding page_load_def by blast
qed


theorem mount_check_witness:
  "example_items (PREFIX @ js ''userSession'') = Some (Wrapped (SessionV example_session) (Some 86400000))
   \<and> isAuthenticated_us example_session
   \<and> isAuthenticated (renders manager_get [0, 0, 1] (page_load example_items))
   \<and> navigations (renders manager_get [0, 0, 1] (page_load example_items)) = []
   \<and> (Map.empty :: jsstring \<rightharpoonup> item) (PREFIX @ js ''userSession'') = None
   \<and> \<not> isAuthenticated (renders manager_get [0, 0, 1] (page_load Map.empty))"
proof -
  have i: "example_items (PREFIX @ js ''userSession'') = Some (Wrapped (SessionV example_session) (Some 86400000))"
    by (simp add: example_items_def PREFIX_def js_def)
  have v: "isAuthenticated_us example_session"
    by (simp add: example_session_def)
  note mc = mount_check [where items = example_items and nav = 0 and navs = "[0, 1]"]
  from mc i v
  have 1: "isAuthenticated (renders manager_get [0, 0, 1] (page_load example_items))
      \<and> navigations (renders manager_get [0, 0, 1] (page_load example_items)) = []"
    by blast
  have e: "(Map.empty :: jsstring \<rightharpoonup> item) (PREFIX @ js ''userSession'') = None"
    by simp
  have n: "\<forall>s ttl. (Map.empty :: jsstring \<rightharpoonup> item) (PREFIX @ js ''userSession'') = Some (Wrapped (SessionV s) ttl)
          \<longrightarrow> \<not> isAuthenticated_us s"
    by simp
  from mount_check [where items = Map.empty and nav = 0 and navs = "[0, 1]"] n
  have 2: "\<not> isAuthenticated (renders manager_get [0, 0, 1] (page_load Map.empty))"
    by blast
  from i v 1 e 2 show ?thesis by (intro conjI) (elim conjE, assumption)+
qed


section \<open>Messages\<close>

lemma send_map_length:
  "length (fst (send_map clock selId m input n cs)) = length cs"
  by (induction cs arbitrary: n) (simp_all add: case_prod_beta)

lemma send_map_ticks:
  "n \<le> snd (send_map clock selId m input n cs)"
proof (induction cs arbitrary: n)
  case Nil
  show ?case by simp
next
  case (Cons c cs)
  from Cons [of n] Cons [of "Suc n"] show ?case
    by (auto simp: case_prod_beta)
qed

lemma send_map_nth:
  assumes "i < length cs"
  shows "(id_conv (cs ! i) = selId \<longrightarrow>
           (\<exists>k. n \<le> k \<and> k < snd (send_map clock selId m input n cs)
              \<and> fst (send_map clock selId m input n cs) ! i =
                  (cs ! i)\<lparr>messages := messages (cs ! i) @ [m], lastMessage := input,
                           lastMessageTime := clock k\<rparr>))
       \<and> (id_conv (cs ! i) \<noteq> selId \<longrightarrow> fst (send_map clock selId m input n cs) ! i = cs ! i)"
  using assms
proof (induction cs arbitrary: n i)
  case Nil
  then show ?case by simp
next
  case (Cons c cs)
  show ?case
  proof (cases i)
    case 0
    show ?thesis
    proof (cases "id_conv c = selId")
      case True
      have "n < snd (send_map clock selId m input (Suc n) cs)"
        using send_map_ticks [of "Suc n" clock selId m input cs] by simp
      with True 0 show ?thesis
        by (auto simp: case_prod_beta)
    next
      case False
      with 0 show ?thesis by (auto simp: case_prod_beta)
    qed
  next
    case (Suc j)
    with Cons.prems have j: "j < length cs" by simp
    show ?thesis
    proof (cases "id_conv c = selId")
      case True
      from Cons.IH [OF j, of "Suc n"] True Suc show ?thesis
        by (auto simp: case_prod_beta intro: Suc_leD)
    next
      case False
      from Cons.IH [OF j, of n] False Suc show ?thesis
        by (auto simp: case_prod_beta)
    qed
  qed
qed

lemma conv_inv_send_map:
  "conv_inv cs \<Longrightarrow> conversationId m = selId \<Longrightarrow>
   conv_inv (fst (send_map clock selId m input n cs))"
  by (induction cs arbitrary: n) (auto simp: conv_inv_def case_prod_beta)

lemma conv_inv_filter: "conv_inv cs \<Longrightarrow> conv_inv (filter P cs)"
  by (simp add: conv_inv_def)

lemma conv_inv_default: "conv_inv (defaultConversations clock n us)"
  by (auto simp: conv_inv_def defaultConversations_def default_conversation_def)


lemma handleSendMessage_unfold:
  assumes "trim (messageInput p) \<noteq> []" and "selectedConversation p = Some sel"
  shows "handleSendMessage clock p =
    (let newMessage =
           \<lparr>id_msg = js ''msg_'' @ num_str (clock (ticks p)), conversationId = id_conv sel,
            senderId = js ''me'', text_msg = messageInput p, timestamp = clock (ticks p + 1),
            read = True\<rparr>;
         r = send_map clock (id_conv sel) newMessage (messageInput p) (ticks p + 2) (conversations p)
     in p\<lparr>conversations := fst r,
          storage_mp := storage_set (js ''conversations'') (ConversationsV (fst r)) None (storage_mp p),
          selectedConversation :=
            Some (sel\<lparr>messages := messages sel @ [newMessage],
                      lastMessage := messageInput p,
                      lastMessageTime := clock (snd r)\<rparr>),
          messageInput := [],
          ticks := Suc (snd r)\<rparr>)"
  using assms by (simp add: handleSendMessage_def Let_def case_prod_beta)

lemma storage_set_stored:
  "storage_get k (storage_set k v ttl st) = Some v"
  "localStorage (storage_set k v ttl st) (PREFIX @ k) = Some (Wrapped v ttl)"
  by (simp_all add: storage_get_def storage_set_def)

text \<open>
  C8. With an input that is not blank and a conversation selected, \<open>handleSendMessage\<close>
  builds one message (sender \<open>me\<close>, read, the input as text, the identifier of the
  selected conversation), keeps the length of the list, appends that message to every
  conversation of the list that carries the selected identifier and sets its
  \<open>lastMessage\<close> to the input and its \<open>lastMessageTime\<close> to a reading of the clock taken
  during the call, leaves every other conversation as it was, writes the new list under
  \<open>loveinthecity_conversations\<close>, updates the selection in the same way and empties the
  input. With a blank input or nothing selected the page and its storage stay as they
  were.
\<close>

theorem handleSendMessage_effect:
  "(trim (messageInput p) \<noteq> [] \<and> selectedConversation p = Some sel \<longrightarrow>
      (\<exists>newMessage p'. p' = handleSendMessage clock p
         \<and> newMessage =
             \<lparr>id_msg = js ''msg_'' @ num_str (clock (ticks p)), conversationId = id_conv sel,
              senderId = js ''me'', text_msg = messageInput p, timestamp = clock (ticks p + 1),
              read = True\<rparr>
         \<and> length (conversations p') = length (conversations p)
         \<and> (\<forall>i < length (conversations p).
               (id_conv (conversations p ! i) = id_conv sel \<longrightarrow>
                  (\<exists>k. ticks p \<le> k \<and> k < ticks p'
                     \<and> conversations p' ! i =
                         (conversations p ! i)
                           \<lparr>messages := messages (conversations p ! i) @ [newMessage],
                            lastMessage := messageInput p,
                            lastMessageTime := clock k\<rparr>))
             \<and> (id_conv (conversations p ! i) \<noteq> id_conv sel \<longrightarrow>
                  conversations p' ! i = conversations p ! i))
         \<and> storage_get (js ''conversations'') (storage_mp p') = Some (ConversationsV (conversations p'))
         \<and> localStorage (storage_mp p') (PREFIX @ js ''conversations'') =
             Some (Wrapped (ConversationsV (conversations p')) None)
         \<and> messageInput p' = []
         \<and> (\<exists>k. ticks p \<le> k \<and> k < ticks p'
               \<and> selectedConversation p' =
                   Some (sel\<lparr>messages := messages sel @ [newMessage],
                             lastMessage := messageInput p,
                             lastMessageTime := clock k\<rparr>))))
   \<and> (trim (messageInput p) = [] \<or> selectedConversation p = None \<longrightarrow>
        handleSendMessage clock p = p)"
proof (intro conjI impI)
  assume h: "trim (messageInput p) \<noteq> [] \<and> selectedConversation p = Some sel"
  define newMessage where "newMessage =
             \<lparr>id_msg = js ''msg_'' @ num_str (clock (ticks p)), conversationId = id_conv sel,
              senderId = js ''me'', text_msg = messageInput p, timestamp = clock (ticks p + 1),
              read = True\<rparr>"
  define r where "r = send_map clock (id_conv sel) newMessage (messageInput p) (ticks p + 2) (conversations p)"
  define p' where "p' = handleSendMessage clock p"
  have p': "p' = p\<lparr>conversations := fst r,
          storage_mp := storage_set (js ''conversations'') (ConversationsV (fst r)) None (storage_mp p),
          selectedConversation :=
            Some (sel\<lparr>messages := messages sel @ [newMessage],
                      lastMessage := messageInput p,
                      lastMessageTime := clock (snd r)\<rparr>),
          messageInput := [],
          ticks := Suc (snd r)\<rparr>"
    using h unfolding p'_def by (simp add: handleSendMessage_unfold Let_def r_def newMessage_def)
  have fields: "conversations p' = fst r" "ticks p' = Suc (snd r)" "messageInput p' = []"
    "storage_mp p' = storage_set (js ''conversations'') (ConversationsV (fst r)) None (storage_mp p)"
    "selectedConversation p' = Some (sel\<lparr>messages := messages sel @ [newMessage],
                      lastMessage := messageInput p, lastMessageTime := clock (snd r)\<rparr>)"
    by (simp_all add: p')
  have ticks: "ticks p + 2 \<le> snd r"
    unfolding r_def by (rule send_map_ticks)
  have len: "length (conversations p') = length (conversations p)"
    by (simp add: fields r_def send_map_length)
  have nth: "(id_conv (conversations p ! i) = id_conv sel \<longrightarrow>
                  (\<exists>k. ticks p \<le> k \<and> k < ticks p'
                     \<and> conversations p' ! i =
                         (conversations p ! i)
                           \<lparr>messages := messages (conversations p ! i) @ [newMessage],
                            lastMessage := messageInput p,
                            lastMessageTime := clock k\<rparr>))
             \<and> (id_conv (conversations p ! i) \<noteq> id_conv sel \<longrightarrow>
                  conversations p' ! i = conversations p ! i)"
    if i: "i < length (conversations p)" for i
  proof -
    note n = send_map_nth [OF i, of "id_conv sel" "ticks p + 2" clock newMessage "messageInput p",
        folded r_def]
    show ?thesis
    proof (intro conjI impI)
      assume eq: "id_conv (conversations p ! i) = id_conv sel"
      with n obtain k where k: "ticks p + 2 \<le> k" "k < snd r"
        "fst r ! i = (conversations p ! i)
                           \<lparr>messages := messages (conversations p ! i) @ [newMessage],
                            lastMessage := messageInput p,
                            lastMessageTime := clock k\<rparr>"
        by blast
      then have "ticks p \<le> k \<and> k < ticks p'" by (simp add: fields)
      with k(3) show "\<exists>k. ticks p \<le> k \<and> k < ticks p'
                     \<and> conversations p' ! i =
                         (conversations p ! i)
                           \<lparr>messages := messages (conversations p ! i) @ [newMessage],
                            lastMessage := messageInput p,
                            lastMessageTime := clock k\<rparr>"
        unfolding fields by blast
    next
      assume "id_conv (conversations p ! i) \<noteq> id_conv sel"
      with n show "conversations p' ! i = conversations p ! i"
        unfolding fields by blast
    qed
  qed
  have st: "storage_get (js ''conversations'') (storage_mp p') = Some (ConversationsV (conversations p'))"
    "localStorage (storage_mp p') (PREFIX @ js ''conversations'') =
             Some (Wrapped (ConversationsV (conversations p')) None)"
    unfolding fields by (rule storage_set_stored)+
  have sel: "\<exists>k. ticks p \<le> k \<and> k < ticks p'
               \<and> selectedConversation p' =
                   Some (sel\<lparr>messages := messages sel @ [newMessage],
                             lastMessage := messageInput p,
                             lastMessageTime := clock k\<rparr>)"
    using ticks by (intro exI [of _ "snd r"]) (simp add: fields)
  show "\<exists>newMessage p'. p' = handleSendMessage clock p
         \<and> newMessage =
             \<lparr>id_msg = js ''msg_'' @ num_str (clock (ticks p)), conversationId = id_conv sel,
              senderId = js ''me'', text_msg = messageInput p, timestamp = clock (ticks p + 1),
              read = True\<rparr>
         \<and> length (conversations p') = length (conversations p)
         \<and> (\<forall>i < length (conversations p).
               (id_conv (conversations p ! i) = id_conv sel \<longrightarrow>
                  (\<exists>k. ticks p \<le> k \<and> k < ticks p'
                     \<and> conversations p' ! i =
                         (conversations p ! i)
                           \<lparr>messages := messages (conversations p ! i) @ [newMessage],
                            lastMessage := messageInput p,
                            lastMessageTime := clock k\<rparr>))
             \<and> (id_conv (conversations p ! i) \<noteq> id_conv sel \<longrightarrow>
                  conversations p' ! i = conversations p ! i))
         \<and> storage_get (js ''conversations'') (storage_mp p') = Some (ConversationsV (conversations p'))
         \<and> localStorage (storage_mp p') (PREFIX @ js ''conversations'') =
             Some (Wrapped (ConversationsV (conversations p')) None)
         \<and> messageInput p' = []
         \<and> (\<exists>k. ticks p \<le> k \<and> k < ticks p'
               \<and> selectedConversation p' =
                   Some (sel\<lparr>messages := messages sel @ [newMessage],
                             lastMessage := messageInput p,
                             lastMessageTime := clock k\<rparr>))"
    apply (rule exI [of _ newMessage])
    apply (rule exI [of _ p'])
    apply (intro conjI allI impI)
    subgoal by (rule p'_def)
    subgoal by (rule newMessage_def)
    subgoal by (rule len)
    subgoal for i using nth [of i] by blast
    subgoal for i using nth [of i] by blast
    subgoal by (rule st)
    subgoal by (rule st)
    subgoal by (rule fields)
    subgoal by (rule sel)
    done
next
  assume "trim (messageInput p) = [] \<or> selectedConversation p = None"
  then show "handleSendMessage clock p = p"
    by (auto simp: handleSendMessage_def)
qed


theorem handleSendMessage_effect_witness:
  "trim (messageInput example_page) \<noteq> []
   \<and> selectedConversation example_page = Some example_conv1
   \<and> length (conversations (handleSendMessage example_clock example_page)) = 2
   \<and> conversations (handleSendMessage example_clock example_page) ! 1 = example_conv2
   \<and> messageInput (handleSendMessage example_clock example_page) = []
   \<and> trim (messageInput (example_page\<lparr>messageInput := js ''  ''\<rparr>)) = []
   \<and> handleSendMessage example_clock (example_page\<lparr>messageInput := js ''  ''\<rparr>)
       = example_page\<lparr>messageInput := js ''  ''\<rparr>"
proof -
  have t: "trim (messageInput example_page) \<noteq> []"
    by (simp add: example_page_def trim_def js_def is_ws_def)
  have s: "selectedConversation example_page = Some example_conv1"
    by (simp add: example_page_def)
  have b: "trim (messageInput (example_page\<lparr>messageInput := js ''  ''\<rparr>)) = []"
    by (simp add: trim_def js_def is_ws_def)
  have c: "conversations example_page = [example_conv1, example_conv2]"
    by (simp add: example_page_def)
  have d: "id_conv example_conv2 \<noteq> id_conv example_conv1"
    by (simp add: example_conv1_def example_conv2_def js_def)
  note send = handleSendMessage_effect [of example_page example_conv1 example_clock]
  from send t s c d
  have 1: "length (conversations (handleSendMessage example_clock example_page)) = 2
      \<and> conversations (handleSendMessage example_clock example_page) ! 1 = example_conv2
      \<and> messageInput (handleSendMessage example_clock example_page) = []"
    by force
  from handleSendMessage_effect [of "example_page\<lparr>messageInput := js ''  ''\<rparr>" example_conv1 example_clock] b
  have 2: "handleSendMessage example_clock (example_page\<lparr>messageInput := js ''  ''\<rparr>)
       = example_page\<lparr>messageInput := js ''  ''\<rparr>"
    by blast
  from t s 1 b 2 show ?thesis by blast
qed

text \<open>
  C9. \<open>handleDeleteConversation\<close> keeps, in order, exactly the conversations whose
  identifier differs from the argument, writes that list under
  \<open>loveinthecity_conversations\<close>, and changes the selection only if the selected
  conversation carries the argument as identifier: then to the first conversation that is
  left, or to none when the list is empty.
\<close>

theorem handleDeleteConversation_effect:
  "\<exists>p'. p' = handleDeleteConversation cid p
     \<and> conversations p' = filter (\<lambda>c. id_conv c \<noteq> cid) (conversations p)
     \<and> (\<forall>c. c \<in> set (conversations p') \<longleftrightarrow> c \<in> set (conversations p) \<and> id_conv c \<noteq> cid)
     \<and> storage_get (js ''conversations'') (storage_mp p') = Some (ConversationsV (conversations p'))
     \<and> localStorage (storage_mp p') (PREFIX @ js ''conversations'') =
         Some (Wrapped (ConversationsV (conversations p')) None)
     \<and> ((\<exists>sel. selectedConversation p = Some sel \<and> id_conv sel = cid) \<longrightarrow>
          selectedConversation p' =
            (if conversations p' = [] then None else Some (conversations p' ! 0)))
     \<and> (\<not> (\<exists>sel. selectedConversation p = Some sel \<and> id_conv sel = cid) \<longrightarrow>
          selectedConversation p' = selectedConversation p)
     \<and> messageInput p' = messageInput p"
proof -
  define filtered where "filtered = filter (\<lambda>c. id_conv c \<noteq> cid) (conversations p)"
  define p' where "p' = handleDeleteConversation cid p"
  have hd: "(case filtered of [] \<Rightarrow> None | c # _ \<Rightarrow> Some c) =
              (if filtered = [] then None else Some (filtered ! 0))"
    by (cases filtered) simp_all
  have sel: "map_option id_conv (selectedConversation p) = Some cid \<longleftrightarrow>
               (\<exists>sel. selectedConversation p = Some sel \<and> id_conv sel = cid)"
    by (cases "selectedConversation p") auto
  have c: "conversations p' = filtered"
    and st: "storage_mp p' = storage_set (js ''conversations'') (ConversationsV filtered) None (storage_mp p)"
    and inp: "messageInput p' = messageInput p"
    by (simp_all add: p'_def handleDeleteConversation_def Let_def filtered_def)
  have s1: "selectedConversation p' = (if conversations p' = [] then None else Some (conversations p' ! 0))"
    if "\<exists>sel. selectedConversation p = Some sel \<and> id_conv sel = cid"
  proof -
    from that sel have "map_option id_conv (selectedConversation p) = Some cid"
      by blast
    then have "selectedConversation p' = (case filtered of [] \<Rightarrow> None | c # _ \<Rightarrow> Some c)"
      by (simp add: p'_def handleDeleteConversation_def Let_def filtered_def)
    then show ?thesis unfolding hd c .
  qed
  have s2: "selectedConversation p' = selectedConversation p"
    if "\<not> (\<exists>sel. selectedConversation p = Some sel \<and> id_conv sel = cid)"
  proof -
    from that sel have "map_option id_conv (selectedConversation p) \<noteq> Some cid"
      by blast
    then show ?thesis
      by (auto simp: p'_def handleDeleteConversation_def Let_def)
  qed
  have mem: "\<forall>c. c \<in> set (conversations p') \<longleftrightarrow> c \<in> set (conversations p) \<and> id_conv c \<noteq> cid"
    by (simp add: c filtered_def)
  have g: "storage_get (js ''conversations'') (storage_mp p') = Some (ConversationsV (conversations p'))"
    "localStorage (storage_mp p') (PREFIX @ js ''conversations'') =
         Some (Wrapped (ConversationsV (conversations p')) None)"
    unfolding st c by (rule storage_set_stored)+
  show ?thesis
    apply (rule exI [of _ p'])
    apply (intro conjI impI)
    subgoal by (rule p'_def)
    subgoal unfolding c by (rule filtered_def)
    subgoal by (rule mem)
    subgoal by (rule g)
    subgoal by (rule g)
    subgoal by (rule s1)
    subgoal by (rule s2)
    subgoal by (rule inp)
    done
qed

theorem handleDeleteConversation_effect_witness:
  "selectedConversation example_page = Some example_conv1
   \<and> id_conv example_conv1 = js ''conv_u1''
   \<and> conversations (handleDeleteConversation (js ''conv_u1'') example_page) = [example_conv2]
   \<and> selectedConversation (handleDeleteConversation (js ''conv_u1'') example_page) = Some example_conv2
   \<and> \<not> (\<exists>sel. selectedConversation example_page = Some sel \<and> id_conv sel = js ''conv_u2'')
   \<and> selectedConversation (handleDeleteConversation (js ''conv_u2'') example_page) = Some example_conv1"
proof -
  have s: "selectedConversation example_page = Some example_conv1"
    by (simp add: example_page_def)
  have i: "id_conv example_conv1 = js ''conv_u1''"
    by (simp add: example_conv1_def)
  have f: "filter (\<lambda>c. id_conv c \<noteq> js ''conv_u1'') (conversations example_page) = [example_conv2]"
    by (simp add: example_page_def example_conv1_def example_conv2_def js_def)
  have n: "\<not> (\<exists>sel. selectedConversation example_page = Some sel \<and> id_conv sel = js ''conv_u2'')"
    by (simp add: example_page_def example_conv1_def js_def)
  from handleDeleteConversation_effect [of "js ''conv_u1''" example_page] s i f
  have 1: "conversations (handleDeleteConversation (js ''conv_u1'') example_page) = [example_conv2]
     \<and> selectedConversation (handleDeleteConversation (js ''conv_u1'') example_page) = Some example_conv2"
    by auto
  from handleDeleteConversation_effect [of "js ''conv_u2''" example_page] n s
  have 2: "selectedConversation (handleDeleteConversation (js ''conv_u2'') example_page) = Some example_conv1"
    by auto
  from s i 1 n 2 show ?thesis by blast
qed


lemma page_ok_set:
  assumes "conv_inv cs"
    and "conversations p' = cs"
    and "storage_mp p' = storage_set (js ''conversations'') (ConversationsV cs) None st"
  shows "page_ok p'"
  using assms by (simp add: page_ok_def storage_set_def)

lemma storage_get_conv_inv:
  assumes "\<forall>cs. cache st (js ''conversations'') = Some (ConversationsV cs) \<longrightarrow> conv_inv cs"
    and "\<forall>cs ttl. localStorage st (PREFIX @ js ''conversations'')
                     = Some (Wrapped (ConversationsV cs) ttl) \<longrightarrow> conv_inv cs"
    and "storage_get (js ''conversations'') st = Some (ConversationsV cs)"
  shows "conv_inv cs"
  using assms by (auto simp: storage_get_def split: option.splits item.splits)

lemma loadConversations_cases:
  "(\<exists>c cs. storage_get (js ''conversations'') (storage_mp p) = Some (ConversationsV (c # cs))
       \<and> loadConversations clock us p = p\<lparr>conversations := c # cs, selectedConversation := Some c\<rparr>)
   \<or> (no_saved (storage_mp p)
       \<and> conversations (loadConversations clock us p) = defaultConversations clock (ticks p) us
       \<and> storage_mp (loadConversations clock us p) =
           storage_set (js ''conversations'')
             (ConversationsV (defaultConversations clock (ticks p) us)) None (storage_mp p))"
  by (auto simp: loadConversations_def no_saved_def Let_def
      split: option.splits stored.splits list.splits)

lemma page_ok_load:
  assumes "\<forall>cs. cache (storage_mp p) (js ''conversations'') = Some (ConversationsV cs) \<longrightarrow> conv_inv cs"
    and "\<forall>cs ttl. localStorage (storage_mp p) (PREFIX @ js ''conversations'')
                     = Some (Wrapped (ConversationsV cs) ttl) \<longrightarrow> conv_inv cs"
  shows "page_ok (loadConversations clock us p)"
  using loadConversations_cases [of p clock us]
proof (elim disjE exE conjE)
  fix c cs
  assume g: "storage_get (js ''conversations'') (storage_mp p) = Some (ConversationsV (c # cs))"
    and l: "loadConversations clock us p = p\<lparr>conversations := c # cs, selectedConversation := Some c\<rparr>"
  from storage_get_conv_inv [OF assms g] have "conv_inv (c # cs)" .
  with assms show ?thesis by (simp add: l page_ok_def)
next
  assume "conversations (loadConversations clock us p) = defaultConversations clock (ticks p) us"
    and "storage_mp (loadConversations clock us p) =
           storage_set (js ''conversations'')
             (ConversationsV (defaultConversations clock (ticks p) us)) None (storage_mp p)"
  then show ?thesis
    by (intro page_ok_set [OF conv_inv_default])
qed

lemma page_ok_mount:
  assumes "no_saved st"
  shows "page_ok (mount_page clock us st n)"
proof -
  let ?p = "\<lparr>conversations = [], selectedConversation = None, messageInput = [],
        storage_mp = st, ticks = n\<rparr>"
  from loadConversations_cases [of ?p clock us] assms
  have "conversations (loadConversations clock us ?p) = defaultConversations clock (ticks ?p) us
       \<and> storage_mp (loadConversations clock us ?p) =
           storage_set (js ''conversations'')
             (ConversationsV (defaultConversations clock (ticks ?p) us)) None (storage_mp ?p)"
    by (auto simp: no_saved_def)
  then show ?thesis
    unfolding mount_page_def by (intro page_ok_set [OF conv_inv_default]) simp_all
qed

lemma page_ok_send:
  assumes "page_ok p"
  shows "page_ok (handleSendMessage clock p)"
proof (cases "trim (messageInput p) = [] \<or> selectedConversation p = None")
  case True
  then have "handleSendMessage clock p = p" by (auto simp: handleSendMessage_def)
  with assms show ?thesis by simp
next
  case False
  then obtain sel where h: "trim (messageInput p) \<noteq> []" "selectedConversation p = Some sel"
    by auto
  from assms have "conv_inv (conversations p)" by (simp add: page_ok_def)
  then show ?thesis
    unfolding handleSendMessage_unfold [OF h] Let_def
    by (intro page_ok_set [OF conv_inv_send_map]) simp_all
qed

lemma page_ok_delete:
  assumes "page_ok p"
  shows "page_ok (handleDeleteConversation cid p)"
proof -
  from assms have "conv_inv (filter (\<lambda>c. id_conv c \<noteq> cid) (conversations p))"
    by (simp add: page_ok_def conv_inv_filter)
  then show ?thesis
    by (rule page_ok_set [where st = "storage_mp p"])
      (simp_all add: handleDeleteConversation_def Let_def)
qed

lemma page_ok_step:
  assumes "page_ok p"
  shows "page_ok (step clock us p a)"
proof (cases a)
  case Send
  with assms show ?thesis by (simp add: page_ok_send)
next
  case (Delete cid)
  with assms show ?thesis by (simp add: page_ok_delete)
next
  case (Select i)
  with assms show ?thesis by (simp add: page_ok_def)
next
  case (Type v)
  with assms show ?thesis by (simp add: page_ok_def)
next
  case Remount
  from assms have "page_ok (loadConversations clock us
       \<lparr>conversations = [], selectedConversation = None, messageInput = [],
        storage_mp = storage_mp p, ticks = ticks p\<rparr>)"
    by (intro page_ok_load) (simp_all add: page_ok_def)
  with Remount show ?thesis by (simp add: mount_page_def)
next
  case Reload
  from assms have "page_ok (loadConversations clock us
       \<lparr>conversations = [], selectedConversation = None, messageInput = [],
        storage_mp = (storage_mp p)\<lparr>cache := Map.empty\<rparr>, ticks = ticks p\<rparr>)"
    by (intro page_ok_load) (simp_all add: page_ok_def)
  with Reload show ?thesis by (simp add: mount_page_def)
qed

lemma page_ok_run:
  "page_ok p \<Longrightarrow> page_ok (run clock us p acts)"
  unfolding run_def by (induction acts arbitrary: p) (simp_all add: page_ok_step)

lemma example_run_ids:
  "map id_conv (conversations (run example_clock example_users
       (mount_page example_clock example_users empty_storage 0) example_actions))
   = [js ''conv_u1'']"
  by (simp add: run_def example_actions_def mount_page_def loadConversations_def
      empty_storage_def storage_get_def storage_set_def
      defaultConversations_def default_conversation_def example_users_def js_def Let_def
      enumerate_eq_zip upt_rec handleSendMessage_def handleDeleteConversation_def
      trim_def is_ws_def PREFIX_def)

text \<open>
  C10. Mount the page on a storage that holds no non-empty list of conversations, so that
  the defaults are seeded, and let the user send, delete, select, type, remount and
  reload in any order: in the list of conversations reached, every message carries the
  identifier of the conversation that holds it.
\<close>

theorem conversation_invariant:
  assumes "no_saved st"
  shows "conv_inv (conversations (run clock MOCK_USERS (mount_page clock MOCK_USERS st n) acts))"
  using page_ok_run [OF page_ok_mount [OF assms]] by (simp add: page_ok_def)




theorem conversation_invariant_witness:
  "no_saved empty_storage
   \<and> conv_inv (conversations (run example_clock example_users
       (mount_page example_clock example_users empty_storage 0) example_actions))
   \<and> map id_conv (conversations (run example_clock example_users
       (mount_page example_clock example_users empty_storage 0) example_actions))
      = [js ''conv_u1'']"
proof -
  have n: "no_saved empty_storage"
    by (simp add: no_saved_def empty_storage_def storage_get_def)
  from conversation_invariant [OF n, of example_clock example_users 0 example_actions] n
    example_run_ids
  show ?thesis by (intro conjI)
qed

end
